theory Spec2Isabelle
  imports Complex_Main "HOL-Library.Word" "HOL-Library.Log_Nat"
begin

unbundle bit_operations_syntax

section \<open>Frame encoder: \<open>CANClient._build_data\<close>\<close>

text \<open>
  Python integers are unbounded, so they are \<open>int\<close>; on \<open>int\<close> the operations
  \<open>AND\<close> and \<open>drop_bit\<close> are Python's \<open>&\<close> and \<open>>>\<close> (two's complement, arithmetic shift).

  A finite Python float is modelled by the rational number it denotes. A conversion to
  float and a float multiplication round to the nearest double (IEEE 754 binary64, ties to
  the even significand); a result beyond the double range is \<open>None\<close>, where Python has an
  infinity or raises \<open>OverflowError\<close>. A context value for which the guarded computation
  raises for another reason (not a number, NaN) is \<open>NotNumeric\<close>.
\<close>

datatype ctx_val = Num rat | NotNumeric

type_synonym ctx = "string \<rightharpoonup> ctx_val"

text \<open>
  One entry of \<open>data_template\<close>: a bare integer, or a dictionary read with \<open>item.get\<close>;
  a key that is absent is \<open>None\<close> here and takes the default of the \<open>get\<close> call.
\<close>

record tpl_dict =
  field :: "string option"
  val :: "int option"
  scale :: "rat option"
  bytes :: "int option"
  endian :: "string option"

datatype tpl_item = IntItem int | DictItem tpl_dict

text \<open>
  A message definition. \<open>data = None\<close> stands for a missing key or a \<open>None\<close> value;
  a missing \<open>data_template\<close> is the empty list.
\<close>

record msg_def =
  msg_id :: "int option"
  extended :: "bool option"
  data :: "int list option"
  data_template :: "tpl_item list"

text \<open>
  Python 3's built-in \<open>round\<close> with one argument: nearest integer, a tie going to the even
  neighbour.
\<close>

definition py_round :: "rat \<Rightarrow> int" where
  "py_round x =
     (let f = \<lfloor>x\<rfloor>; d = x - of_int f in
      if d < 1 / 2 then f
      else if 1 / 2 < d then f + 1
      else if even f then f else f + 1)"

text \<open>Powers of two with an integer exponent.\<close>

definition pow2 :: "int \<Rightarrow> rat" where
  "pow2 e = (if 0 \<le> e then 2 ^ nat e else 1 / 2 ^ nat (- e))"

text \<open>
  The binary exponent of a positive rational: the \<open>e\<close> with \<open>2^e \<le> x < 2^(e+1)\<close>. The
  difference of the bit lengths of numerator and denominator is \<open>e\<close> or \<open>e + 1\<close>.
\<close>

definition ilog2 :: "rat \<Rightarrow> int" where
  "ilog2 x =
     (let (a, b) = quotient_of x; e0 = bitlen a - bitlen b in
      if pow2 e0 \<le> x then e0 else e0 - 1)"

text \<open>The least magnitude beyond the double range, \<open>2^1024\<close>, written in hexadecimal.\<close>

definition DBL_LIMIT :: rat where
  "DBL_LIMIT = 0x10000000000000000000000000000000000000000000000000000000000000000000000000000000000000000000000000000000000000000000000000000000000000000000000000000000000000000000000000000000000000000000000000000000000000000000000000000000000000000000000000000000000000000"

text \<open>
  Rounding to the nearest double: the significand has 53 bits, so the spacing of doubles
  around \<open>x\<close> is \<open>2^(e - 52)\<close>, with the exponent \<open>e\<close> of \<open>x\<close> held at \<open>-1022\<close> in the subnormal
  range; \<open>x\<close> is rounded to the nearest multiple of the spacing, a tie going to the even
  multiple. \<open>None\<close> when the rounded magnitude reaches \<open>2^1024\<close>.
\<close>

definition to_double :: "rat \<Rightarrow> rat option" where
  "to_double x =
     (if x = 0 then Some 0
      else
        let e = max (ilog2 \<bar>x\<bar>) (- 1022);
            q = pow2 (e - 52);
            y = of_int (py_round (\<bar>x\<bar> / q)) * q
        in if DBL_LIMIT \<le> y then None else Some (sgn x * y))"

text \<open>\<open>float(val)\<close>: raises for a value that is not numeric or is too large.\<close>

fun py_float :: "ctx_val \<Rightarrow> rat option" where
  "py_float (Num x) = to_double x"
| "py_float NotNumeric = None"

text \<open>
  \<open>float(val) * scale\<close> with \<open>scale = float(...)\<close> of the configured number: both
  conversions and the product round to a double; \<open>None\<close> when one of them is not finite.
\<close>

definition float_product :: "rat \<Rightarrow> rat \<Rightarrow> rat option" where
  "float_product v s =
     (case to_double v of
        None \<Rightarrow> None
      | Some x \<Rightarrow>
          (case to_double s of
             None \<Rightarrow> None
           | Some sc \<Rightarrow> to_double (x * sc)))"

text \<open>\<open>str.lower\<close> on ASCII text.\<close>

definition lower_char :: "char \<Rightarrow> char" where
  "lower_char c =
     (let k = (of_char c :: nat) in if 65 \<le> k \<and> k \<le> 90 then char_of (k + 32) else c)"

definition lower :: "string \<Rightarrow> string" where
  "lower s = map lower_char s"

text \<open>
  Lines 148 and 151 to 153: the context lookup with default 0, and the guarded
  \<open>int(round(float(val) * scale))\<close> whose failure gives 0. The argument \<open>s\<close> is the
  configured scale; a scale or a product that is not finite makes \<open>int(round(...))\<close>
  raise, which the guard turns into 0 as well.
\<close>

definition field_num :: "ctx \<Rightarrow> string \<Rightarrow> rat \<Rightarrow> int" where
  "field_num c k s =
     (let v = (case c k of None \<Rightarrow> Num 0 | Some x \<Rightarrow> x) in
      case py_float v of
        None \<Rightarrow> 0
      | Some x \<Rightarrow>
          (case to_double s of
             None \<Rightarrow> 0
           | Some sc \<Rightarrow>
               (case to_double (x * sc) of
                  None \<Rightarrow> 0
                | Some p \<Rightarrow> py_round p)))"

text \<open>Lines 154 to 164: the bytes appended for one field, by width and endianness.\<close>

definition emit_field :: "int \<Rightarrow> string \<Rightarrow> int \<Rightarrow> int list" where
  "emit_field width e num =
     (if width = 1 then [num AND 255]
      else if width = 2 then
        (let b0 = num AND 255; b1 = drop_bit 8 num AND 255 in
         if e = ''le'' then [b0, b1] else [b1, b0])
      else if width = 4 then
        (let bs = map (\<lambda>i. drop_bit (8 * i) num AND 255) [0..<4] in
         if e = ''be'' then rev bs else bs)
      else [num AND 255])"

text \<open>The bytes of a dictionary item that names a field (lines 148 to 164).\<close>

definition field_item_bytes :: "ctx \<Rightarrow> string \<Rightarrow> tpl_dict \<Rightarrow> int list" where
  "field_item_bytes c k item =
     (let sc = (case scale item of None \<Rightarrow> 1 | Some s \<Rightarrow> s);
          width = (case bytes item of None \<Rightarrow> 1 | Some w \<Rightarrow> w);
          e = lower (case endian item of None \<Rightarrow> ''le'' | Some s \<Rightarrow> s);
          num = field_num c k sc
      in emit_field width e num)"

text \<open>
  The \<open>for item in tpl\<close> loop with its accumulator \<open>out\<close>. The two \<open>continue\<close> branches
  skip the length test; only a field item reaches \<open>if len(out) >= 8: break\<close>.
\<close>

fun build_loop :: "ctx \<Rightarrow> tpl_item list \<Rightarrow> int list \<Rightarrow> int list" where
  "build_loop c [] out = out"
| "build_loop c (IntItem n # tpl) out = build_loop c tpl (out @ [n AND 255])"
| "build_loop c (DictItem item # tpl) out =
     (case field item of
        None \<Rightarrow>
          build_loop c tpl (out @ [(case val item of None \<Rightarrow> 0 | Some v \<Rightarrow> v) AND 255])
      | Some k \<Rightarrow>
          (let out' = out @ field_item_bytes c k item in
           if 8 \<le> length out' then out' else build_loop c tpl out'))"

text \<open>The loop \<open>while len(data) < 8: data.append(0)\<close>.\<close>

function pad8 :: "int list \<Rightarrow> int list" where
  "pad8 xs = (if length xs < 8 then pad8 (xs @ [0]) else xs)"
  by pat_completeness auto
termination
  by (relation "measure (\<lambda>xs. 8 - length xs)") auto

declare pad8.simps [simp del]

definition build_data :: "msg_def \<Rightarrow> ctx \<Rightarrow> int list" where
  "build_data m c =
     (let d = (case data m of
                 Some xs \<Rightarrow> take 8 (map (\<lambda>x. x AND 255) xs)
               | None \<Rightarrow> take 8 (build_loop c (data_template m) []))
      in take 8 (pad8 d))"

subsection \<open>The payload as the specification describes it\<close>

text \<open>
  The conceptual, untruncated byte sequence of a message definition: the masked literal, or
  the bytes of every template entry in declared order.
\<close>

definition item_bytes :: "ctx \<Rightarrow> tpl_item \<Rightarrow> int list" where
  "item_bytes c it =
     (case it of
        IntItem n \<Rightarrow> [n AND 255]
      | DictItem item \<Rightarrow>
          (case field item of
             None \<Rightarrow> [(case val item of None \<Rightarrow> 0 | Some v \<Rightarrow> v) AND 255]
           | Some k \<Rightarrow> field_item_bytes c k item))"

definition conceptual_bytes :: "msg_def \<Rightarrow> ctx \<Rightarrow> int list" where
  "conceptual_bytes m c =
     (case data m of
        Some xs \<Rightarrow> map (\<lambda>x. x AND 255) xs
      | None \<Rightarrow> concat (map (item_bytes c) (data_template m)))"

text \<open>Rounding to nearest with ties away from zero, the rule the specification names.\<close>

definition round_half_away :: "rat \<Rightarrow> int" where
  "round_half_away x = (if 0 \<le> x then \<lfloor>x + 1 / 2\<rfloor> else - \<lfloor>- x + 1 / 2\<rfloor>)"


section \<open>Text conversions used by the application\<close>

text \<open>\<open>str(n)\<close> for an integer: decimal digits, with a minus sign when negative.\<close>

definition digit_char :: "nat \<Rightarrow> char" where
  "digit_char d = char_of (48 + d)"

fun str_nat :: "nat \<Rightarrow> string" where
  "str_nat n = (if n < 10 then [digit_char n] else str_nat (n div 10) @ [digit_char (n mod 10)])"

declare str_nat.simps [simp del]

definition py_str :: "int \<Rightarrow> string" where
  "py_str i = (if i < 0 then CHR ''-'' # str_nat (nat (- i)) else str_nat (nat i))"

text \<open>\<open>str.strip\<close>, for ASCII white space.\<close>

definition is_space :: "char \<Rightarrow> bool" where
  "is_space c = ((of_char c :: nat) \<in> {9, 10, 11, 12, 13, 32})"

definition strip :: "string \<Rightarrow> string" where
  "strip s = rev (dropWhile is_space (rev (dropWhile is_space s)))"

text \<open>
  \<open>int(s)\<close> on a stripped string: an optional sign and at least one decimal digit; anything
  else raises \<open>ValueError\<close>, which is \<open>None\<close>. Digit grouping with underscores is left out.
\<close>

definition digit_val :: "char \<Rightarrow> nat option" where
  "digit_val c = (let k = (of_char c :: nat) in if 48 \<le> k \<and> k \<le> 57 then Some (k - 48) else None)"

fun parse_digits :: "string \<Rightarrow> nat \<Rightarrow> nat option" where
  "parse_digits [] acc = Some acc"
| "parse_digits (c # cs) acc =
     (case digit_val c of None \<Rightarrow> None | Some d \<Rightarrow> parse_digits cs (10 * acc + d))"

definition py_int :: "string \<Rightarrow> int option" where
  "py_int s =
     (case s of
        [] \<Rightarrow> None
      | c # cs \<Rightarrow>
          if c = CHR ''-'' then
            (if cs = [] then None else map_option (\<lambda>n. - int n) (parse_digits cs 0))
          else if c = CHR ''+'' then
            (if cs = [] then None else map_option int (parse_digits cs 0))
          else map_option int (parse_digits s 0))"

text \<open>\<open>sep.join(items)\<close>.\<close>

fun join :: "string \<Rightarrow> string list \<Rightarrow> string" where
  "join sep [] = []"
| "join sep [x] = x"
| "join sep (x # y # ys) = x @ sep @ join sep (y # ys)"

section \<open>Reader loop: \<open>CANClient._rx_loop\<close>\<close>

text \<open>
  A received CAN message; its payload is a byte string, so each element is an \<open>8 word\<close>
  and \<open>uint\<close> reads it as Python reads \<open>d[i]\<close>.
\<close>

record can_msg =
  arbitration_id :: int
  is_extended_id :: bool
  frame_data :: "8 word list"

text \<open>
  \<open>CANConfig\<close>, without the transport settings (interface, channel, bit rate) that no
  function below reads.
\<close>

record can_config =
  messages :: "string \<rightharpoonup> msg_def"
  telemetry_id :: int
  telemetry_ext :: bool
  inverter_id :: int
  inverter_ext :: bool

text \<open>
  The text lines put on the queue. Each constructor stands for one format string of the
  source and carries the values formatted into it; the clock prefix of \<open>_dbg\<close> is left out.
\<close>

datatype log_text =
    DbgRx int bool nat
  | TelemLine int int int int int int
  | InvLine int int int "int option" "int option" "int option"
  | NotMatched int bool nat int bool int bool
  | CanRxLine int "int list"
  | CanRxErr

text \<open>The dictionaries put on the queue, by their \<open>type\<close> entry.\<close>

record telemetry_ev =
  tm_err :: int
  tm_set :: int
  tm_temp :: int
  tm_cond :: int
  tm_fan_raw :: int
  tm_state_raw :: int
  tm_raw :: "int list"

record inv_ev =
  iv_cur :: int
  iv_volt :: int
  iv_temp :: int
  iv_raw :: "int list"
  iv_err5 :: "int option"
  iv_state6 :: "int option"
  iv_state7 :: "int option"

datatype queue_item =
    Telemetry telemetry_ev
  | Inv inv_ev
  | Tx int bool "int list"
  | Text log_text

text \<open>
  The body of the \<open>while\<close> loop once a message has arrived: everything it puts on the queue,
  in order. No index is read without the length test that guards it.
\<close>

definition rx_frame :: "can_config \<Rightarrow> can_msg \<Rightarrow> queue_item list" where
  "rx_frame cfg msg =
     (let tid = telemetry_id cfg; text = telemetry_ext cfg;
          iid = inverter_id cfg; iext = inverter_ext cfg;
          got_id = arbitration_id msg; got_ext = is_extended_id msg;
          got_len = length (frame_data msg);
          dbg = Text (DbgRx got_id got_ext got_len);
          d = map uint (frame_data msg)
      in
      if got_id = tid \<and> got_ext = text \<and> 8 \<le> got_len then
        [dbg,
         Telemetry \<lparr>tm_err = d ! 0, tm_set = d ! 1, tm_temp = d ! 2, tm_cond = d ! 3,
                    tm_fan_raw = d ! 6, tm_state_raw = d ! 7, tm_raw = d\<rparr>,
         Text (TelemLine (d ! 1) (d ! 2) (d ! 3) (d ! 6) (d ! 7) (d ! 0))]
      else if got_id = iid \<and> got_ext = iext \<and> 3 \<le> got_len then
        (let e5 = (if 6 \<le> got_len then Some (d ! 5) else None);
             s6 = (if 7 \<le> got_len then Some (d ! 6) else None);
             s7 = (if 8 \<le> got_len then Some (d ! 7) else None)
         in
         [dbg,
          Inv \<lparr>iv_cur = d ! 0, iv_volt = d ! 1, iv_temp = d ! 2,
                iv_raw = take (max 3 got_len) d,
                iv_err5 = e5, iv_state6 = s6, iv_state7 = s7\<rparr>,
          Text (InvLine (d ! 0) (d ! 1) (d ! 2) e5 s6 s7)])
      else
        [dbg,
         Text (NotMatched got_id got_ext got_len tid text iid iext),
         Text (CanRxLine got_id d)])"

text \<open>
  One pass of the loop: \<open>recv\<close> times out, delivers a message, or raises; the handler of
  the \<open>try\<close> reports the failure as a text line and the loop goes on.
\<close>

datatype recv_result = RecvNone | RecvFrame can_msg | RecvRaised

fun rx_once :: "can_config \<Rightarrow> recv_result \<Rightarrow> queue_item list" where
  "rx_once cfg RecvNone = []"
| "rx_once cfg (RecvFrame msg) = rx_frame cfg msg"
| "rx_once cfg RecvRaised = [Text CanRxErr]"

subsection \<open>The inbound signatures as the specification describes them\<close>

definition signature_match :: "int \<Rightarrow> bool \<Rightarrow> nat \<Rightarrow> can_msg \<Rightarrow> bool" where
  "signature_match sid sext min_len msg \<longleftrightarrow>
     arbitration_id msg = sid \<and> is_extended_id msg = sext \<and> min_len \<le> length (frame_data msg)"

definition controller_match :: "can_config \<Rightarrow> can_msg \<Rightarrow> bool" where
  "controller_match cfg msg = signature_match (telemetry_id cfg) (telemetry_ext cfg) 8 msg"

definition inverter_match :: "can_config \<Rightarrow> can_msg \<Rightarrow> bool" where
  "inverter_match cfg msg = signature_match (inverter_id cfg) (inverter_ext cfg) 3 msg"


section \<open>Application state and the periodic \<open>_poll\<close>\<close>

text \<open>
  The lookup tables of \<open>ACControllerApp\<close>. The labels are Russian in the source; they are
  written here in Latin transliteration, and the dash placeholder as a hyphen.
\<close>

definition MAIN_STATE :: "int \<rightharpoonup> string" where
  "MAIN_STATE = map_of
     [(0, ''vyklyucheno''), (1, ''testirovanie''), (2, ''ozhidanie''),
      (3, ''rabota''), (4, ''oshibka''), (5, ''produvka'')]"

definition SUB_STATE :: "int \<rightharpoonup> string" where
  "SUB_STATE = map_of
     [(0, ''pered vyklyucheniem''), (1, ''vyklyucheno''), (2, ''rabota''),
      (3, ''pered ozhidaniem''), (4, ''ozhidanie'')]"

definition INV_MAIN :: "int \<rightharpoonup> string" where
  "INV_MAIN = map_of
     [(0, ''vyklyucheno''), (1, ''pauza''), (2, ''plavnoe vyklyuchenie''),
      (3, ''vklyucheno''), (4, ''pered otklyucheniem'')]"

definition INV_SUB :: "int \<rightharpoonup> string" where
  "INV_SUB = map_of
     [(0, ''vyklyucheno''), (1, ''vklyucheno''), (2, ''pauza''), (3, ''plavnoe vyklyuchenie'')]"

definition TIMEOUT_S :: rat where
  "TIMEOUT_S = 10"

text \<open>\<open>table.get(key, f"neizv({key})")\<close>: the label, or the fallback text with the value.\<close>

definition unknown_text :: "int \<Rightarrow> string" where
  "unknown_text v = ''neizv('' @ py_str v @ '')''"

definition state_text :: "(int \<rightharpoonup> string) \<Rightarrow> int \<Rightarrow> string" where
  "state_text table v = (case table v of None \<Rightarrow> unknown_text v | Some s \<Rightarrow> s)"

text \<open>The CAN client held by the application: its configuration and whether the bus is open.\<close>

record can_client =
  cfg :: can_config
  bus_open :: bool

text \<open>
  The fields of \<open>ACControllerApp\<close> that the handlers below read or write. Time stamps are
  the values of \<open>time.time()\<close>. The gauge percentages and the canvas drawing are presentation
  only and are left out.
\<close>

record app =
  client :: "can_client option"
  var_temp :: string
  var_cond :: string
  var_set :: string
  var_state_main :: string
  var_state_sub :: string
  var_err :: string
  last_main_state :: "int option"
  var_set_input :: int
  var_inv_cur :: string
  var_inv_volt :: string
  var_inv_temp :: string
  var_inv_main :: string
  var_inv_sub :: string
  var_inv_errs :: string
  var_fan_level_c :: int
  var_fan_level_e :: int
  last_ctrl_rx :: rat
  last_inv_rx :: rat
  ctrl_valid :: bool
  inv_valid :: bool

text \<open>The state set up by \<open>__init__\<close>.\<close>

definition init_app :: app where
  "init_app =
     \<lparr>client = None,
      var_temp = ''--'', var_cond = ''--'', var_set = ''--'',
      var_state_main = ''-'', var_state_sub = ''-'', var_err = ''net'',
      last_main_state = None, var_set_input = 25,
      var_inv_cur = ''--'', var_inv_volt = ''--'', var_inv_temp = ''--'',
      var_inv_main = ''-'', var_inv_sub = ''-'', var_inv_errs = ''-'',
      var_fan_level_c = 0, var_fan_level_e = 0,
      last_ctrl_rx = 0, last_inv_rx = 0,
      ctrl_valid = False, inv_valid = False\<rparr>"

text \<open>
  The variables that \<open>_reset_ctrl_display\<close> writes, and those that \<open>_reset_inv_display\<close>
  writes: what the display shows for each channel.
\<close>

definition ctrl_display ::
    "app \<Rightarrow> string \<times> string \<times> string \<times> string \<times> string \<times> string \<times> int \<times> int" where
  "ctrl_display st =
     (var_temp st, var_cond st, var_set st, var_state_main st, var_state_sub st, var_err st,
      var_fan_level_c st, var_fan_level_e st)"

definition inv_display ::
    "app \<Rightarrow> string \<times> string \<times> string \<times> string \<times> string \<times> string" where
  "inv_display st =
     (var_inv_cur st, var_inv_volt st, var_inv_temp st, var_inv_main st, var_inv_sub st,
      var_inv_errs st)"

text \<open>The lines written by \<open>_log\<close> during a poll, each standing for one format string.\<close>

datatype log_entry =
    RxTelemLog "int list"
  | RxInvLog "int list"
  | TxLog int "int list"
  | TextLog log_text
  | TimeoutCtrlLog
  | TimeoutInvLog

definition reset_ctrl_display :: "app \<Rightarrow> app" where
  "reset_ctrl_display st =
     st\<lparr>var_temp := ''--'', var_cond := ''--'', var_set := ''--'',
        var_state_main := ''-'', var_state_sub := ''-'', var_err := ''net'',
        var_fan_level_c := 0, var_fan_level_e := 0\<rparr>"

definition reset_inv_display :: "app \<Rightarrow> app" where
  "reset_inv_display st =
     st\<lparr>var_inv_cur := ''--'', var_inv_volt := ''--'', var_inv_temp := ''--'',
        var_inv_main := ''-'', var_inv_sub := ''-'', var_inv_errs := ''-''\<rparr>"

definition format_inv_errors :: "int \<Rightarrow> string" where
  "format_inv_errors bits =
     (let items =
            (if bits AND 1 \<noteq> 0 then [''Prevyshenie maks. toka''] else []) @
            (if bits AND 2 \<noteq> 0 then [''Ne norma U1''] else []) @
            (if bits AND 4 \<noteq> 0 then [''Ne norma U2''] else []) @
            (if bits AND 8 \<noteq> 0 then [''Prevyshenie maks. temperatury''] else []) @
            (if bits AND 16 \<noteq> 0 then [''Flag 18V''] else [])
      in if items \<noteq> [] then join '', '' items else ''-'')"

text \<open>
  The body of the queue loop for one item: the updated state and the lines logged.
\<close>

fun poll_item :: "rat \<Rightarrow> queue_item \<Rightarrow> app \<Rightarrow> app \<times> log_entry list" where
  "poll_item now (Telemetry item) st =
     (let fan_byte = tm_fan_raw item;
          lvl_c = max 0 (min 3 (drop_bit 4 fan_byte AND 15));
          lvl_e = max 0 (min 3 (fan_byte AND 15));
          state_byte = tm_state_raw item;
          main = drop_bit 4 state_byte AND 15;
          sub = state_byte AND 15;
          main_txt = state_text MAIN_STATE main;
          sub_txt = state_text SUB_STATE sub;
          raw = tm_raw item
      in (st\<lparr>last_ctrl_rx := now, ctrl_valid := True,
              var_err := py_str (tm_err item), var_set := py_str (tm_set item),
              var_temp := py_str (tm_temp item), var_cond := py_str (tm_cond item),
              var_fan_level_c := lvl_c, var_fan_level_e := lvl_e,
              last_main_state := Some main,
              var_state_main := ''Main: '' @ main_txt,
              var_state_sub := ''Sub:  '' @ sub_txt\<rparr>,
          if raw \<noteq> [] then [RxTelemLog raw] else []))"
| "poll_item now (Inv item) st =
     (let raw = iv_raw item
      in (st\<lparr>last_inv_rx := now, inv_valid := True,
              var_inv_cur := py_str (iv_cur item), var_inv_volt := py_str (iv_volt item),
              var_inv_temp := py_str (iv_temp item),
              var_inv_main :=
                (case iv_state7 item of
                   None \<Rightarrow> var_inv_main st
                 | Some s7 \<Rightarrow> ''Main: '' @ state_text INV_MAIN s7),
              var_inv_sub :=
                (case iv_state6 item of
                   None \<Rightarrow> var_inv_sub st
                 | Some s6 \<Rightarrow> ''Sub:  '' @ state_text INV_SUB s6),
              var_inv_errs :=
                (case iv_err5 item of
                   None \<Rightarrow> var_inv_errs st
                 | Some e5 \<Rightarrow> format_inv_errors e5)\<rparr>,
          if raw \<noteq> [] then [RxInvLog raw] else []))"
| "poll_item now (Tx i x bs) st = (st, [TxLog i bs])"
| "poll_item now (Text t) st = (st, [TextLog t])"

text \<open>The loop \<open>while True: item = get_nowait()\<close> over the items found on the queue.\<close>

fun drain :: "rat \<Rightarrow> queue_item list \<Rightarrow> app \<Rightarrow> app \<times> log_entry list" where
  "drain now [] st = (st, [])"
| "drain now (it # items) st =
     (let (st1, lg1) = poll_item now it st;
          (st2, lg2) = drain now items st1
      in (st2, lg1 @ lg2))"

definition check_ctrl_timeout :: "rat \<Rightarrow> app \<Rightarrow> app \<times> log_entry list" where
  "check_ctrl_timeout now st =
     (if ctrl_valid st \<and> TIMEOUT_S < now - last_ctrl_rx st
      then (reset_ctrl_display (st\<lparr>ctrl_valid := False\<rparr>), [TimeoutCtrlLog])
      else (st, []))"

definition check_inv_timeout :: "rat \<Rightarrow> app \<Rightarrow> app \<times> log_entry list" where
  "check_inv_timeout now st =
     (if inv_valid st \<and> TIMEOUT_S < now - last_inv_rx st
      then (reset_inv_display (st\<lparr>inv_valid := False\<rparr>), [TimeoutInvLog])
      else (st, []))"

text \<open>One run of \<open>_poll\<close> at time \<open>now\<close> with the given queue content.\<close>

definition poll :: "rat \<Rightarrow> queue_item list \<Rightarrow> app \<Rightarrow> app \<times> log_entry list" where
  "poll now items st =
     (let (st1, lg1) = drain now items st;
          (st2, lg2) = check_ctrl_timeout now st1;
          (st3, lg3) = check_inv_timeout now st2
      in (st3, lg1 @ lg2 @ lg3))"

text \<open>Successive runs of \<open>_poll\<close>, each with its clock value and queue content.\<close>

fun run_polls :: "(rat \<times> queue_item list) list \<Rightarrow> app \<Rightarrow> app \<times> log_entry list" where
  "run_polls [] st = (st, [])"
| "run_polls ((now, items) # ps) st =
     (let (st1, lg1) = poll now items st;
          (st2, lg2) = run_polls ps st1
      in (st2, lg1 @ lg2))"

section \<open>Commands\<close>

datatype error = NotConnected | NotOpen | NoSection string | BadId

text \<open>What a button handler did: showed the warning box, or sent a frame.\<close>

datatype cmd_outcome = WarningShown | FrameSent int bool "int list"

text \<open>
  \<open>CANClient.send_from_key\<close>: the frame handed to \<open>bus.send\<close> (and recorded on the queue
  as a \<open>tx\<close> item). A missing section raises, and so does \<open>int(None)\<close> for a missing id
  (an empty section, which the source also refuses, has no id either).
\<close>

definition send_from_key :: "can_client \<Rightarrow> string \<Rightarrow> ctx \<Rightarrow> error + cmd_outcome" where
  "send_from_key cl key c =
     (if \<not> bus_open cl then Inl NotOpen
      else case messages (cfg cl) key of
        None \<Rightarrow> Inl (NoSection key)
      | Some m \<Rightarrow>
          (case msg_id m of
             None \<Rightarrow> Inl BadId
           | Some arb_id \<Rightarrow>
               (let is_ext = (case extended m of None \<Rightarrow> False | Some b \<Rightarrow> b)
                in Inr (FrameSent arb_id is_ext (build_data m c)))))"

definition send_can :: "app \<Rightarrow> string \<Rightarrow> ctx \<Rightarrow> error + cmd_outcome" where
  "send_can st key c =
     (case client st of
        None \<Rightarrow> Inl NotConnected
      | Some cl \<Rightarrow> send_from_key cl key c)"

definition get_state_setpoint :: "app \<Rightarrow> int option" where
  "get_state_setpoint st = py_int (strip (var_set st))"

definition on_start :: "app \<Rightarrow> error + cmd_outcome" where
  "on_start st =
     (case get_state_setpoint st of
        None \<Rightarrow> Inr WarningShown
      | Some v \<Rightarrow> send_can st ''START'' [''value'' \<mapsto> Num (of_int v)])"

definition on_stop :: "app \<Rightarrow> error + cmd_outcome" where
  "on_stop st =
     (case get_state_setpoint st of
        None \<Rightarrow> Inr WarningShown
      | Some v \<Rightarrow> send_can st ''STOP'' [''value'' \<mapsto> Num (of_int v)])"

text \<open>Line 619: the mode of the SET command from the last Main state.\<close>

definition set_mode :: "int option \<Rightarrow> int" where
  "set_mode main = (if main = Some 2 then 0 else 32)"

definition on_set :: "app \<Rightarrow> error + cmd_outcome" where
  "on_set st =
     (let v = var_set_input st;
          main = last_main_state st;
          mode = set_mode main
      in send_can st ''SET'' [''value'' \<mapsto> Num (of_int v), ''mode'' \<mapsto> Num (of_int mode)])"

text \<open>Whether a queue item is a controller snapshot, or an inverter snapshot.\<close>

fun is_telemetry :: "queue_item \<Rightarrow> bool" where
  "is_telemetry (Telemetry t) = True"
| "is_telemetry _ = False"

fun is_inv :: "queue_item \<Rightarrow> bool" where
  "is_inv (Inv i) = True"
| "is_inv _ = False"


section \<open>Concrete inputs for the examples\<close>

text \<open>A decimal digit character (used to state what \<open>str\<close> produces).\<close>

definition is_digit :: "char \<Rightarrow> bool" where
  "is_digit c \<longleftrightarrow> (\<exists>d<10. c = digit_char d)"

text \<open>
  A sample \<open>messages\<close> section: START and STOP carry the field \<open>value\<close> in the last byte,
  SET carries \<open>mode\<close> in byte 2 and \<open>value\<close> in the last byte, as the module docstring
  describes the frames.
\<close>

definition value_field :: tpl_item where
  "value_field =
     DictItem \<lparr>field = Some ''value'', val = None, scale = None, bytes = None, endian = None\<rparr>"

definition mode_field :: tpl_item where
  "mode_field =
     DictItem \<lparr>field = Some ''mode'', val = None, scale = None, bytes = None, endian = None\<rparr>"

definition sample_messages :: "string \<rightharpoonup> msg_def" where
  "sample_messages =
     [''START'' \<mapsto> \<lparr>msg_id = Some 0x5E0001, extended = Some True, data = None,
         data_template = [IntItem 1, IntItem 0, IntItem 0, IntItem 0, IntItem 0, IntItem 0,
                          IntItem 0, value_field]\<rparr>,
      ''STOP'' \<mapsto> \<lparr>msg_id = Some 0x5E0001, extended = Some True, data = None,
         data_template = [IntItem 2, IntItem 0, IntItem 0, IntItem 0, IntItem 0, IntItem 0,
                          IntItem 0, value_field]\<rparr>,
      ''SET'' \<mapsto> \<lparr>msg_id = Some 0x5E0001, extended = Some True, data = None,
         data_template = [IntItem 3, IntItem 0, mode_field, IntItem 0, IntItem 0, IntItem 0,
                          IntItem 0, value_field]\<rparr>]"

text \<open>The configuration with the default telemetry signatures of \<open>CANConfig\<close>.\<close>

definition sample_cfg :: can_config where
  "sample_cfg =
     \<lparr>messages = sample_messages,
      telemetry_id = 0x5E0100, telemetry_ext = True,
      inverter_id = 0x5E0200, inverter_ext = True\<rparr>"

definition sample_client :: can_client where
  "sample_client = \<lparr>cfg = sample_cfg, bus_open = True\<rparr>"

text \<open>
  A controller frame with setpoint 22, temperatures 24 and 30, fan byte 0x12 and state
  byte 0x23; the same with state byte 0xFF; two inverter frames; a foreign frame.
\<close>

definition ctrl_frame :: can_msg where
  "ctrl_frame =
     \<lparr>arbitration_id = 0x5E0100, is_extended_id = True,
      frame_data = [0, 22, 24, 30, 0, 0, 0x12, 0x23]\<rparr>"

definition ctrl_frame_ff :: can_msg where
  "ctrl_frame_ff =
     \<lparr>arbitration_id = 0x5E0100, is_extended_id = True,
      frame_data = [0, 22, 24, 30, 0, 0, 0x12, 0xFF]\<rparr>"

definition inv_frame :: can_msg where
  "inv_frame =
     \<lparr>arbitration_id = 0x5E0200, is_extended_id = True,
      frame_data = [5, 48, 40, 0, 0, 0x09, 2, 3]\<rparr>"

definition inv_frame_short :: can_msg where
  "inv_frame_short =
     \<lparr>arbitration_id = 0x5E0200, is_extended_id = True,
      frame_data = [5, 48, 40, 0, 0, 0x09]\<rparr>"

definition inv_frame_11 :: can_msg where
  "inv_frame_11 =
     \<lparr>arbitration_id = 0x5E0200, is_extended_id = True,
      frame_data = [5, 48, 40, 0, 0, 0, 0x11, 0x11]\<rparr>"

definition foreign_frame :: can_msg where
  "foreign_frame =
     \<lparr>arbitration_id = 0x123, is_extended_id = False, frame_data = [0xDE, 0xAD]\<rparr>"

text \<open>
  A run for the liveness examples: both channels are heard by the poll at time 100, then
  nothing arrives and the polls at 109.9 and 110.1 find an empty queue.
\<close>

definition heard_items :: "queue_item list" where
  "heard_items = rx_frame sample_cfg ctrl_frame @ rx_frame sample_cfg inv_frame"

definition s_100 :: app where
  "s_100 = fst (poll 100 heard_items init_app)"

definition s_109 :: app where
  "s_109 = fst (poll (1099 / 10) [] s_100)"

definition s_110 :: app where
  "s_110 = fst (poll (1101 / 10) [] s_109)"

text \<open>The initial state once \<open>on_connect\<close> has stored an open client.\<close>

definition connected_app :: app where
  "connected_app = init_app\<lparr>client := Some sample_client\<rparr>"

text \<open>The connected application after the poll at time 100 has dequeued a controller frame.\<close>

definition c_100 :: app where
  "c_100 = fst (poll 100 (rx_frame sample_cfg ctrl_frame) connected_app)"

section \<open>Properties of the encoder\<close>

lemma pad8_eq: "pad8 xs = xs @ replicate (8 - length xs) 0"
proof (induction xs rule: pad8.induct)
  case (1 xs)
  show ?case
  proof (cases "length xs < 8")
    case True
    then have "8 - length xs = Suc (8 - length (xs @ [0::int]))" by simp
    with True 1 show ?thesis
      by (subst pad8.simps) (simp add: replicate_app_Cons_same)
  next
    case False
    then show ?thesis by (subst pad8.simps) simp
  qed
qed

lemma build_loop_take:
  "take 8 (build_loop c tpl out) = take 8 (out @ concat (map (item_bytes c) tpl))"
proof (induction tpl arbitrary: out)
  case Nil
  show ?case by simp
next
  case (Cons it tpl)
  show ?case
  proof (cases it)
    case (IntItem n)
    then show ?thesis using Cons [of "out @ [n AND 255]"] by (simp add: item_bytes_def)
  next
    case (DictItem item)
    show ?thesis
    proof (cases "field item")
      case None
      then show ?thesis
        using DictItem Cons [of "out @ [(case val item of None \<Rightarrow> 0 | Some v \<Rightarrow> v) AND 255]"]
        by (simp add: item_bytes_def)
    next
      case (Some k)
      then show ?thesis
        using DictItem Cons [of "out @ field_item_bytes c k item"]
        by (simp add: item_bytes_def Let_def)
    qed
  qed
qed

lemma take8_pad8: "take 8 (pad8 (take 8 xs)) = take 8 (xs @ replicate 8 0)"
  by (cases "length xs < 8") (simp_all add: pad8_eq min_def)

lemma build_data_eq: "build_data m c = take 8 (conceptual_bytes m c @ replicate 8 0)"
  by (cases "data m")
    (simp_all add: build_data_def conceptual_bytes_def take8_pad8 build_loop_take del: take_append)

text \<open>
  C1. Whatever the message definition (a literal of any length, or a template of any number
  of entries) and whatever the context, the encoder returns exactly 8 bytes: the first 8 of
  the conceptual byte sequence when that has 8 or more, and otherwise the whole sequence
  followed by zeros up to length 8.
\<close>

theorem build_data_exactly_8_bytes:
  "length (build_data m c) = 8 \<and>
   build_data m c =
     take 8 (conceptual_bytes m c) @ replicate (8 - length (conceptual_bytes m c)) 0"
  by (simp add: build_data_eq)

lemma frac_bounds: "0 \<le> x - of_int \<lfloor>x\<rfloor> \<and> x - of_int \<lfloor>x\<rfloor> < (1::rat)"
  by linarith

lemma py_round_near: "\<bar>of_int (py_round x) - x\<bar> \<le> 1 / 2"
proof -
  define d where "d = x - of_int \<lfloor>x\<rfloor>"
  have b: "0 \<le> d" "d < 1" using frac_bounds [of x] by (simp_all add: d_def)
  consider "d < 1 / 2" | "1 / 2 < d" | "d = 1 / 2" by linarith
  then show ?thesis
  proof cases
    case 1
    then have "py_round x = \<lfloor>x\<rfloor>" by (simp add: py_round_def Let_def d_def)
    with 1 b show ?thesis by (simp add: d_def)
  next
    case 2
    then have "py_round x = \<lfloor>x\<rfloor> + 1" by (simp add: py_round_def Let_def d_def)
    with 2 b show ?thesis by (simp add: d_def)
  next
    case 3
    then have "py_round x = \<lfloor>x\<rfloor> \<or> py_round x = \<lfloor>x\<rfloor> + 1"
      by (simp add: py_round_def Let_def d_def)
    with 3 show ?thesis by (auto simp: d_def)
  qed
qed

lemma py_round_tie:
  assumes a: "\<bar>of_int (py_round x) - x\<bar> = 1 / 2"
  shows "even (py_round x)"
proof -
  define d where "d = x - of_int \<lfloor>x\<rfloor>"
  have b: "0 \<le> d" "d < 1" using frac_bounds [of x] by (simp_all add: d_def)
  consider "d < 1 / 2" | "1 / 2 < d" | "d = 1 / 2" by linarith
  then show ?thesis
  proof cases
    case 1
    then have "py_round x = \<lfloor>x\<rfloor>" by (simp add: py_round_def Let_def d_def)
    with 1 b a show ?thesis by (simp add: d_def)
  next
    case 2
    then have "py_round x = \<lfloor>x\<rfloor> + 1" by (simp add: py_round_def Let_def d_def)
    with 2 b a show ?thesis by (simp add: d_def)
  next
    case 3
    then show ?thesis by (simp add: py_round_def Let_def d_def)
  qed
qed

lemma py_round_unique:
  assumes "\<bar>of_int n - x\<bar> \<le> 1 / 2" and "\<bar>of_int n - x\<bar> = 1 / 2 \<longrightarrow> even n"
  shows "py_round x = n"
proof -
  have 1: "\<bar>of_int (py_round x) - x\<bar> \<le> 1 / 2" by (rule py_round_near)
  have "\<bar>(of_int (py_round x) :: rat) - of_int n\<bar> \<le> 1" using 1 assms(1) by linarith
  then have "(of_int \<bar>py_round x - n\<bar> :: rat) \<le> 1" by simp
  then have "\<bar>py_round x - n\<bar> \<le> 1" by (simp only: of_int_le_1_iff)
  then consider "py_round x = n" | "py_round x = n + 1" | "py_round x = n - 1" by linarith
  then show ?thesis
  proof cases
    case 1 then show ?thesis .
  next
    case 2
    with 1 assms(1) have "\<bar>of_int n - x\<bar> = 1 / 2" "\<bar>of_int (py_round x) - x\<bar> = 1 / 2"
      by simp_all
    with assms(2) py_round_tie [of x] 2 show ?thesis by simp
  next
    case 3
    with 1 assms(1) have "\<bar>of_int n - x\<bar> = 1 / 2" "\<bar>of_int (py_round x) - x\<bar> = 1 / 2"
      by simp_all
    with assms(2) py_round_tie [of x] 3 show ?thesis by simp
  qed
qed

lemma DBL_LIMIT_eq: "DBL_LIMIT = 2 ^ 1024"
  by (simp add: DBL_LIMIT_def)

lemma to_double_zero: "to_double 0 = Some 0"
  by (simp add: to_double_def)

lemma to_double_small: "to_double 1 = Some 1" "to_double 32 = Some 32"
  by code_simp+

lemma py_round_small: "py_round 0 = 0" "py_round 32 = 32"
  by code_simp+

text \<open>
  The conversion to double is a correct rounding: the exponent found by \<open>ilog2\<close> is the
  binary exponent, the result is within half a spacing of the argument, and integers of
  magnitude below \<open>2^53\<close> are kept exactly.
\<close>

lemma pow2_powi: "pow2 e = 2 powi e"
  by (simp add: pow2_def power_int_def field_simps)

lemma pow2_pos: "0 < pow2 e"
  by (simp add: pow2_powi)

lemma pow2_mono: "a \<le> b \<Longrightarrow> pow2 a \<le> pow2 b"
  by (simp add: pow2_powi power_int_increasing)

lemma pow2_add: "pow2 (a + b) = pow2 a * pow2 b"
  by (simp add: pow2_powi power_int_add)

lemma pow2_diff: "pow2 (a - b) = pow2 a / pow2 b"
  by (simp add: pow2_powi power_int_diff)

lemma pow2_nat: "0 \<le> e \<Longrightarrow> pow2 e = 2 ^ nat e"
  by (simp add: pow2_def)

lemma ilog2_bounds:
  assumes "0 < x"
  shows "pow2 (ilog2 x) \<le> x \<and> x < pow2 (ilog2 x + 1)"
proof -
  obtain a b where q: "quotient_of x = (a, b)" by (cases "quotient_of x")
  then have b: "0 < b" and x: "x = of_int a / of_int b"
    by (simp_all add: quotient_of_denom_pos quotient_of_div)
  with assms have a: "0 < a" by (simp add: zero_less_divide_iff)
  define la lb where "la = bitlen a" and "lb = bitlen b"
  have la: "1 \<le> la" and lb: "1 \<le> lb"
    using a b bitlen_eq_zero_iff [of a] bitlen_eq_zero_iff [of b] bitlen_nonneg [of a]
      bitlen_nonneg [of b]
    by (auto simp: la_def lb_def)
  have ba: "2 ^ nat (la - 1) \<le> a" "a < 2 ^ nat la"
    using bitlen_bounds [OF a] by (simp_all add: la_def)
  have bb: "2 ^ nat (lb - 1) \<le> b" "b < 2 ^ nat lb"
    using bitlen_bounds [OF b] by (simp_all add: lb_def)
  have ra: "pow2 (la - 1) \<le> of_int a" "of_int a < pow2 la"
  proof -
    have "(of_int (2 ^ nat (la - 1)) :: rat) \<le> of_int a" using ba(1) by (simp only: of_int_le_iff)
    then show "pow2 (la - 1) \<le> of_int a" using la by (simp add: pow2_nat)
    have "(of_int a :: rat) < of_int (2 ^ nat la)" using ba(2) by (simp only: of_int_less_iff)
    then show "of_int a < pow2 la" using la by (simp add: pow2_nat)
  qed
  have rb: "pow2 (lb - 1) \<le> of_int b" "of_int b < pow2 lb"
  proof -
    have "(of_int (2 ^ nat (lb - 1)) :: rat) \<le> of_int b" using bb(1) by (simp only: of_int_le_iff)
    then show "pow2 (lb - 1) \<le> of_int b" using lb by (simp add: pow2_nat)
    have "(of_int b :: rat) < of_int (2 ^ nat lb)" using bb(2) by (simp only: of_int_less_iff)
    then show "of_int b < pow2 lb" using lb by (simp add: pow2_nat)
  qed
  have bpos: "(0::rat) < of_int b" using b by simp
  have up: "x < pow2 (la - lb + 1)"
  proof -
    have "x < pow2 la / of_int b" unfolding x using ra(2) bpos by (simp add: divide_strict_right_mono)
    also have "\<dots> \<le> pow2 la / pow2 (lb - 1)"
      using rb(1) pow2_pos [of "lb - 1"] pow2_pos [of la] by (simp add: frac_le)
    also have "\<dots> = pow2 (la - lb + 1)" using pow2_diff [of la "lb - 1"] by (simp add: algebra_simps)
    finally show ?thesis .
  qed
  have lo: "pow2 (la - lb - 1) \<le> x"
  proof -
    have "pow2 (la - lb - 1) = pow2 (la - 1) / pow2 lb"
      using pow2_diff [of "la - 1" lb] by (simp add: algebra_simps)
    also have "\<dots> \<le> of_int a / pow2 lb"
      using ra(1) pow2_pos [of lb] by (simp add: divide_right_mono)
    also have "\<dots> \<le> of_int a / of_int b"
      using rb(2) bpos a by (simp add: frac_le)
    finally show ?thesis by (simp add: x)
  qed
  show ?thesis
  proof (cases "pow2 (la - lb) \<le> x")
    case True
    then have "ilog2 x = la - lb" by (simp add: ilog2_def q la_def lb_def)
    with True up show ?thesis by simp
  next
    case False
    then have "ilog2 x = la - lb - 1" by (simp add: ilog2_def q la_def lb_def)
    with False lo show ?thesis by simp
  qed
qed

lemma to_double_nearest:
  assumes "to_double x = Some y" and "x \<noteq> 0"
  shows "\<bar>y - x\<bar> \<le> pow2 (max (ilog2 \<bar>x\<bar>) (- 1022) - 52) / 2"
proof -
  define q where "q = pow2 (max (ilog2 \<bar>x\<bar>) (- 1022) - 52)"
  define m where "m = py_round (\<bar>x\<bar> / q)"
  have qpos: "0 < q" by (simp add: q_def pow2_pos)
  have y: "y = sgn x * (of_int m * q)"
    using assms by (simp add: to_double_def Let_def q_def m_def split: if_splits)
  have "\<bar>of_int m - \<bar>x\<bar> / q\<bar> \<le> 1 / 2" unfolding m_def by (rule py_round_near)
  then have "\<bar>of_int m - \<bar>x\<bar> / q\<bar> * q \<le> 1 / 2 * q"
    using qpos by (simp only: mult_le_cancel_right_pos)
  moreover have "\<bar>of_int m - \<bar>x\<bar> / q\<bar> * q = \<bar>of_int m * q - \<bar>x\<bar>\<bar>"
  proof -
    have "\<bar>of_int m - \<bar>x\<bar> / q\<bar> * q = \<bar>(of_int m - \<bar>x\<bar> / q) * q\<bar>"
      using qpos by (simp add: abs_mult)
    also have "(of_int m - \<bar>x\<bar> / q) * q = of_int m * q - \<bar>x\<bar>"
      using qpos by (simp add: field_simps)
    finally show ?thesis .
  qed
  ultimately have n: "\<bar>of_int m * q - \<bar>x\<bar>\<bar> \<le> q / 2" by simp
  have "\<bar>y - x\<bar> = \<bar>of_int m * q - \<bar>x\<bar>\<bar>"
  proof (cases "0 < x")
    case True
    then show ?thesis by (simp add: y)
  next
    case False
    with assms(2) have "x < 0" by simp
    then have "y - x = - (of_int m * q - \<bar>x\<bar>)" by (simp add: y)
    then show ?thesis by (simp only: abs_minus_cancel)
  qed
  with n show ?thesis by (simp add: q_def)
qed


lemma py_round_of_int: "py_round (of_int k) = k"
  by (simp add: py_round_def)

lemma to_double_int:
  assumes "\<bar>m\<bar> < 2 ^ 53"
  shows "to_double (of_int m) = Some (of_int m)"
proof (cases "m = 0")
  case True
  then show ?thesis by (simp add: to_double_def)
next
  case False
  define x :: rat where "x = \<bar>of_int m\<bar>"
  define e where "e = ilog2 x"
  have xpos: "0 < x" using False by (simp add: x_def)
  have x1: "1 \<le> x"
  proof -
    have "1 \<le> \<bar>m\<bar>" using False by simp
    then have "(of_int 1 :: rat) \<le> of_int \<bar>m\<bar>" by (simp only: of_int_le_iff)
    then show ?thesis by (simp add: x_def)
  qed
  have x53: "x < pow2 53"
  proof -
    have "(of_int \<bar>m\<bar> :: rat) < of_int (2 ^ 53)" using assms by (simp only: of_int_less_iff)
    then show ?thesis by (simp add: x_def pow2_def)
  qed
  note b = ilog2_bounds [OF xpos, folded e_def]
  have e0: "0 \<le> e"
  proof (rule ccontr)
    assume "\<not> 0 \<le> e"
    then have "e + 1 \<le> 0" by simp
    then have "pow2 (e + 1) \<le> pow2 0" by (rule pow2_mono)
    with b x1 show False by (simp add: pow2_def)
  qed
  have e52: "e \<le> 52"
  proof (rule ccontr)
    assume "\<not> e \<le> 52"
    then have "53 \<le> e" by simp
    then have "pow2 53 \<le> pow2 e" by (rule pow2_mono)
    with b x53 show False by simp
  qed
  define q where "q = pow2 (e - 52)"
  have qpos: "0 < q" by (simp add: q_def pow2_pos)
  have me: "max e (- 1022) = e" using e0 by simp
  have qi: "1 / q = of_int (2 ^ nat (52 - e))"
  proof -
    have "pow2 (52 - e) * pow2 (e - 52) = pow2 0" by (simp add: pow2_add [symmetric])
    then have "pow2 (52 - e) * q = 1" by (simp add: q_def pow2_def)
    then have "1 / q = pow2 (52 - e)" using qpos by (simp add: field_simps)
    then show ?thesis using e52 by (simp add: pow2_nat)
  qed
  have "x / q = x * (1 / q)" by simp
  also have "\<dots> = of_int (\<bar>m\<bar> * 2 ^ nat (52 - e))" by (simp add: qi x_def)
  finally have xq: "x / q = of_int (\<bar>m\<bar> * 2 ^ nat (52 - e))" .
  have r: "of_int (py_round (x / q)) * q = x"
  proof -
    have "of_int (py_round (x / q)) = x / q" by (simp only: xq py_round_of_int)
    then show ?thesis using qpos by simp
  qed
  have lim: "\<not> DBL_LIMIT \<le> x"
  proof -
    have "pow2 53 \<le> pow2 1024" by (rule pow2_mono) simp
    then have "x < pow2 1024" using x53 by simp
    then show ?thesis by (simp add: DBL_LIMIT_eq pow2_def)
  qed
  have "to_double (of_int m) = Some (sgn (of_int m) * x)"
    using False r lim by (simp add: to_double_def Let_def x_def [symmetric] e_def [symmetric] me q_def [symmetric])
  then show ?thesis by (simp add: x_def sgn_mult_abs)
qed

lemma field_num_int:
  assumes "\<bar>n\<bar> < 2 ^ 53"
  shows "field_num [k \<mapsto> Num (of_int n)] k 1 = n"
proof -
  have 1: "to_double 1 = Some 1" using to_double_int [of 1] by simp
  show ?thesis
    using to_double_int [OF assms] 1
    by (simp add: field_num_def py_round_of_int)
qed

text \<open>
  C8, as the specification states it, fails: with the value 1 and the scale 1/2 the product
  is exactly the tie 1/2, which the encoder rounds to 0, while rounding ties away from zero
  gives 1.
\<close>

theorem round_ties_away_counterexample:
  "float_product 1 (1 / 2) = Some (1 / 2) \<and>
   field_num [''value'' \<mapsto> Num 1] ''value'' (1 / 2) = 0 \<and> round_half_away (1 / 2) = 1"
  by code_simp

text \<open>
  C8, amended. For a templated field the encoder takes the value from the context by key
  (0 when the key is absent), multiplies it by the scale in double precision and rounds
  that product to the nearest integer, a tie going to the even neighbour: the result is the
  only integer within 1/2 of the double product that is even whenever it is exactly 1/2
  away. One rule at every tie. When the product is not finite the result is 0.
\<close>

theorem field_num_round_half_even:
  assumes "c k = Some (Num v) \<or> (c k = None \<and> v = 0)"
  shows "(float_product v s = Some p \<longrightarrow>
            (field_num c k s = n \<longleftrightarrow>
               \<bar>of_int n - p\<bar> \<le> 1 / 2 \<and> (\<bar>of_int n - p\<bar> = 1 / 2 \<longrightarrow> even n))) \<and>
         (float_product v s = None \<longrightarrow> field_num c k s = 0)"
proof (intro conjI impI)
  assume fp: "float_product v s = Some p"
  have f: "field_num c k s = py_round p"
    using assms fp
    by (auto simp: field_num_def float_product_def to_double_zero split: option.splits)
  show "field_num c k s = n \<longleftrightarrow>
          \<bar>of_int n - p\<bar> \<le> 1 / 2 \<and> (\<bar>of_int n - p\<bar> = 1 / 2 \<longrightarrow> even n)"
  proof
    assume "field_num c k s = n"
    with f have n: "n = py_round p" by simp
    show "\<bar>of_int n - p\<bar> \<le> 1 / 2 \<and> (\<bar>of_int n - p\<bar> = 1 / 2 \<longrightarrow> even n)"
      unfolding n using py_round_near [of p] py_round_tie [of p] by blast
  next
    assume "\<bar>of_int n - p\<bar> \<le> 1 / 2 \<and> (\<bar>of_int n - p\<bar> = 1 / 2 \<longrightarrow> even n)"
    then have "py_round p = n" using py_round_unique [of n p] by blast
    with f show "field_num c k s = n" by simp
  qed
next
  assume "float_product v s = None"
  then show "field_num c k s = 0"
    using assms
    by (auto simp: field_num_def float_product_def to_double_zero split: option.splits)
qed

text \<open>
  Two instances: 5 times 0.5 is the tie 2.5 and gives 2; 5 times 0.1 is, in double
  precision, exactly the tie 0.5 and gives 0.
\<close>

lemma sample_products:
  "float_product 5 (1 / 2) = Some (5 / 2)" "float_product 5 (1 / 10) = Some (1 / 2)"
  by code_simp+

theorem field_num_round_half_even_witness:
  "float_product 5 (1 / 2) = Some (5 / 2) \<and>
   field_num [''value'' \<mapsto> Num 5] ''value'' (1 / 2) = 2 \<and>
   float_product 5 (1 / 10) = Some (1 / 2) \<and>
   field_num [''value'' \<mapsto> Num 5] ''value'' (1 / 10) = 0"
proof -
  have h: "[''value'' \<mapsto> Num 5] ''value'' = Some (Num 5) \<or>
      ([''value'' \<mapsto> Num 5] ''value'' = None \<and> (5::rat) = 0)" by simp
  have a: "\<bar>of_int 2 - (5 / 2 :: rat)\<bar> \<le> 1 / 2 \<and>
      (\<bar>of_int 2 - (5 / 2 :: rat)\<bar> = 1 / 2 \<longrightarrow> even (2::int))" by simp
  have b: "\<bar>of_int 0 - (1 / 2 :: rat)\<bar> \<le> 1 / 2 \<and>
      (\<bar>of_int 0 - (1 / 2 :: rat)\<bar> = 1 / 2 \<longrightarrow> even (0::int))" by simp
  have 1: "field_num [''value'' \<mapsto> Num 5] ''value'' (1 / 2) = 2"
    using field_num_round_half_even
      [of "[''value'' \<mapsto> Num 5]" "''value''" 5 "1 / 2" "5 / 2" 2] h a sample_products(1)
    by blast
  have 2: "field_num [''value'' \<mapsto> Num 5] ''value'' (1 / 10) = 0"
    using field_num_round_half_even
      [of "[''value'' \<mapsto> Num 5]" "''value''" 5 "1 / 10" "1 / 2" 0] h b sample_products(2)
    by blast
  show ?thesis using 1 2 sample_products by simp
qed

lemma lower_le: "lower ''le'' = ''le''"
  by code_simp

lemma lower_be: "lower ''be'' = ''be''"
  by code_simp

text \<open>
  C9. For every number, the little-endian encoding of width 2 (and of width 4) lists the
  bytes in ascending significance, and the big-endian encoding is that list reversed; the
  same holds for a template field whose \<open>endian\<close> entry is \<open>le\<close> or \<open>be\<close>.
\<close>

theorem endian_mirror:
  "emit_field 2 ''le'' n = [n AND 255, drop_bit 8 n AND 255] \<and>
   emit_field 2 ''be'' n = rev (emit_field 2 ''le'' n) \<and>
   emit_field 4 ''le'' n =
     [n AND 255, drop_bit 8 n AND 255, drop_bit 16 n AND 255, drop_bit 24 n AND 255] \<and>
   emit_field 4 ''be'' n = rev (emit_field 4 ''le'' n) \<and>
   field_item_bytes c k \<lparr>field = f, val = v, scale = s, bytes = Some 2, endian = Some ''be''\<rparr> =
     rev (field_item_bytes c k
            \<lparr>field = f, val = v, scale = s, bytes = Some 2, endian = Some ''le''\<rparr>) \<and>
   field_item_bytes c k \<lparr>field = f, val = v, scale = s, bytes = Some 4, endian = Some ''be''\<rparr> =
     rev (field_item_bytes c k
            \<lparr>field = f, val = v, scale = s, bytes = Some 4, endian = Some ''le''\<rparr>)"
proof -
  have upt4: "[0..<4] = [0, 1, 2, 3]" by (simp add: upt_conv_Cons)
  have 1: "emit_field 2 ''le'' n = [n AND 255, drop_bit 8 n AND 255]" for n
    by (simp add: emit_field_def Let_def)
  have 2: "emit_field 2 ''be'' n = rev (emit_field 2 ''le'' n)" for n
    by (simp add: emit_field_def Let_def)
  have 3: "emit_field 4 ''le'' n =
     [n AND 255, drop_bit 8 n AND 255, drop_bit 16 n AND 255, drop_bit 24 n AND 255]" for n
    by (simp add: emit_field_def Let_def upt4)
  have 4: "emit_field 4 ''be'' n = rev (emit_field 4 ''le'' n)" for n
    by (simp add: emit_field_def Let_def)
  have 5: "field_item_bytes c k \<lparr>field = f, val = v, scale = s, bytes = Some w, endian = Some e\<rparr> =
      emit_field w (lower e) (field_num c k (case s of None \<Rightarrow> 1 | Some x \<Rightarrow> x))" for w e
    by (simp add: field_item_bytes_def Let_def)
  show ?thesis
    by (simp only: 1 2 3 4 5 lower_le lower_be simp_thms)
qed

text \<open>
  C10. A field whose declared width is any integer other than 1, 2 or 4 is not an error:
  the encoder emits one byte, the low 8 bits of the scaled and rounded value, exactly as
  for width 1.
\<close>

theorem other_width_single_byte:
  assumes "w \<noteq> 1" and "w \<noteq> 2" and "w \<noteq> 4"
  shows "emit_field w e n = [n AND 255] \<and> emit_field w e n = emit_field 1 e n \<and>
         field_item_bytes c k \<lparr>field = f, val = v, scale = s, bytes = Some w, endian = en\<rparr> =
           [field_num c k (case s of None \<Rightarrow> 1 | Some x \<Rightarrow> x) AND 255]"
  using assms by (simp add: emit_field_def field_item_bytes_def Let_def)

theorem other_width_single_byte_witness:
  "(3::int) \<noteq> 1 \<and> (3::int) \<noteq> 2 \<and> (3::int) \<noteq> 4 \<and>
   emit_field 3 ''be'' 513 = [1] \<and> emit_field 3 ''be'' 513 = emit_field 1 ''be'' 513 \<and>
   field_item_bytes [''t1'' \<mapsto> Num 513] ''t1''
     \<lparr>field = Some ''t1'', val = None, scale = None, bytes = Some 3, endian = Some ''be''\<rparr> = [1]"
proof -
  have n: "field_num [''t1'' \<mapsto> Num 513] ''t1'' 1 = 513" by code_simp
  show ?thesis
    using other_width_single_byte [of 3 "''be''" 513 "[''t1'' \<mapsto> Num 513]" "''t1''"
        "Some ''t1''" None None "Some ''be''"]
    by (auto simp: n)
qed


section \<open>Properties of the text conversions\<close>

lemma digit_val_digit_char: "d < 10 \<Longrightarrow> digit_val (digit_char d) = Some d"
  by (simp add: digit_val_def digit_char_def Let_def)

lemma parse_digits_snoc:
  "parse_digits (xs @ [c]) acc =
     (case parse_digits xs acc of
        None \<Rightarrow> None
      | Some a \<Rightarrow> (case digit_val c of None \<Rightarrow> None | Some d \<Rightarrow> Some (10 * a + d)))"
  by (induction xs arbitrary: acc) (auto split: option.splits)

lemma parse_str_nat: "parse_digits (str_nat n) 0 = Some n"
proof (induction n rule: str_nat.induct)
  case (1 n)
  show ?case
  proof (cases "n < 10")
    case True
    then show ?thesis by (subst str_nat.simps) (simp add: digit_val_digit_char)
  next
    case False
    then have "parse_digits (str_nat (n div 10)) 0 = Some (n div 10)" using 1 by simp
    with False show ?thesis
      by (subst str_nat.simps) (simp add: parse_digits_snoc digit_val_digit_char)
  qed
qed

lemma str_nat_digits: "str_nat n \<noteq> [] \<and> (\<forall>c\<in>set (str_nat n). is_digit c)"
proof (induction n rule: str_nat.induct)
  case (1 n)
  show ?case
  proof (cases "n < 10")
    case True
    then show ?thesis by (subst (1 2) str_nat.simps) (auto simp: is_digit_def)
  next
    case False
    have "is_digit (digit_char (n mod 10))" unfolding is_digit_def
      by (rule exI [of _ "n mod 10"]) simp
    with False 1 show ?thesis by (subst (1 2) str_nat.simps) auto
  qed
qed

lemma digit_not_special:
  "is_digit c \<Longrightarrow> \<not> is_space c \<and> c \<noteq> CHR ''-'' \<and> c \<noteq> CHR ''+''"
proof -
  assume "is_digit c"
  then obtain d where d: "d < 10" "c = digit_char d" by (auto simp: is_digit_def)
  then have o: "(of_char c :: nat) = 48 + d" by (simp add: digit_char_def)
  have "(of_char CHR ''-'' :: nat) = 45" "(of_char CHR ''+'' :: nat) = 43" by simp_all
  with o d show ?thesis by (auto simp: is_space_def)
qed

lemma dropWhile_id: "xs \<noteq> [] \<Longrightarrow> \<not> P (hd xs) \<Longrightarrow> dropWhile P xs = xs"
  by (cases xs) auto

lemma strip_id:
  assumes "s \<noteq> []" "\<not> is_space (hd s)" "\<not> is_space (last s)"
  shows "strip s = s"
proof -
  have 1: "dropWhile is_space s = s" using assms by (simp add: dropWhile_id)
  have "rev s \<noteq> []" "\<not> is_space (hd (rev s))" using assms by (simp_all add: hd_rev)
  then have 2: "dropWhile is_space (rev s) = rev s" by (rule dropWhile_id)
  show ?thesis by (simp add: strip_def 1 2)
qed

lemma py_int_py_str: "py_int (strip (py_str i)) = Some i"
proof -
  let ?n = "nat \<bar>i\<bar>"
  obtain c cs where cs: "str_nat ?n = c # cs" using str_nat_digits [of ?n] by (cases "str_nat ?n") auto
  have dig: "\<forall>x\<in>set (c # cs). is_digit x" using str_nat_digits [of ?n] cs by simp
  have lastd: "is_digit (last (c # cs))" using dig last_in_set [of "c # cs"] by blast
  have p: "parse_digits (c # cs) 0 = Some ?n" using parse_str_nat [of ?n] cs by simp
  show ?thesis
  proof (cases "i < 0")
    case True
    then have s: "py_str i = CHR ''-'' # c # cs" using cs by (simp add: py_str_def)
    have "\<not> is_space CHR ''-''" by (simp add: is_space_def)
    moreover have "\<not> is_space (last (CHR ''-'' # c # cs))" using lastd digit_not_special by simp
    ultimately have "strip (py_str i) = py_str i" unfolding s by (intro strip_id) simp_all
    then show ?thesis using True p by (simp add: s py_int_def)
  next
    case False
    then have s: "py_str i = c # cs" using cs by (simp add: py_str_def)
    have c: "\<not> is_space c" "c \<noteq> CHR ''-''" "c \<noteq> CHR ''+''" using dig digit_not_special by auto
    moreover have "\<not> is_space (last (c # cs))" using lastd digit_not_special by blast
    ultimately have "strip (py_str i) = py_str i" unfolding s by (intro strip_id) simp_all
    then show ?thesis using False p c by (simp add: s py_int_def)
  qed
qed

lemma py_int_dashes: "py_int (strip ''--'') = None"
  by code_simp

section \<open>Properties of the reader loop\<close>

text \<open>
  C2. For every received frame the reader compares it with the controller signature first
  (same arbitration id, same extended flag, at least 8 payload bytes) and then publishes a
  controller event read from bytes 0, 1, 2, 3, 6 and 7. Otherwise it compares it with the
  inverter signature (same id, same flag, at least 3 bytes) and then publishes an inverter
  event with bytes 0 to 2, the error bitmask exactly when the length is at least 6, the Sub
  field exactly when it is at least 7 and the Main field exactly when it is at least 8.
  Otherwise it publishes the diagnostic lines carrying the raw id, extended flag, length and
  bytes. A delivered frame never produces the receive-error line.
\<close>

theorem rx_frame_dispatch:
  "(controller_match cf msg \<longrightarrow>
      rx_frame cf msg =
        [Text (DbgRx (arbitration_id msg) (is_extended_id msg) (length (frame_data msg))),
         Telemetry \<lparr>tm_err = uint (frame_data msg ! 0), tm_set = uint (frame_data msg ! 1),
                    tm_temp = uint (frame_data msg ! 2), tm_cond = uint (frame_data msg ! 3),
                    tm_fan_raw = uint (frame_data msg ! 6),
                    tm_state_raw = uint (frame_data msg ! 7),
                    tm_raw = map uint (frame_data msg)\<rparr>,
         Text (TelemLine (uint (frame_data msg ! 1)) (uint (frame_data msg ! 2))
                 (uint (frame_data msg ! 3)) (uint (frame_data msg ! 6))
                 (uint (frame_data msg ! 7)) (uint (frame_data msg ! 0)))]) \<and>
   (\<not> controller_match cf msg \<and> inverter_match cf msg \<longrightarrow>
      (\<exists>ev. rx_frame cf msg =
        [Text (DbgRx (arbitration_id msg) (is_extended_id msg) (length (frame_data msg))),
         Inv ev,
         Text (InvLine (iv_cur ev) (iv_volt ev) (iv_temp ev)
                 (iv_err5 ev) (iv_state6 ev) (iv_state7 ev))] \<and>
        iv_cur ev = uint (frame_data msg ! 0) \<and>
        iv_volt ev = uint (frame_data msg ! 1) \<and>
        iv_temp ev = uint (frame_data msg ! 2) \<and>
        iv_raw ev = map uint (frame_data msg) \<and>
        iv_err5 ev =
          (if 6 \<le> length (frame_data msg) then Some (uint (frame_data msg ! 5)) else None) \<and>
        iv_state6 ev =
          (if 7 \<le> length (frame_data msg) then Some (uint (frame_data msg ! 6)) else None) \<and>
        iv_state7 ev =
          (if 8 \<le> length (frame_data msg) then Some (uint (frame_data msg ! 7)) else None))) \<and>
   (\<not> controller_match cf msg \<and> \<not> inverter_match cf msg \<longrightarrow>
      rx_frame cf msg =
        [Text (DbgRx (arbitration_id msg) (is_extended_id msg) (length (frame_data msg))),
         Text (NotMatched (arbitration_id msg) (is_extended_id msg) (length (frame_data msg))
                 (telemetry_id cf) (telemetry_ext cf) (inverter_id cf) (inverter_ext cf)),
         Text (CanRxLine (arbitration_id msg) (map uint (frame_data msg)))]) \<and>
   Text CanRxErr \<notin> set (rx_once cf (RecvFrame msg))"
proof (intro conjI impI)
  assume c: "controller_match cf msg"
  then have "frame_data msg \<noteq> []"
    by (auto simp: controller_match_def signature_match_def)
  with c show "rx_frame cf msg =
        [Text (DbgRx (arbitration_id msg) (is_extended_id msg) (length (frame_data msg))),
         Telemetry \<lparr>tm_err = uint (frame_data msg ! 0), tm_set = uint (frame_data msg ! 1),
                    tm_temp = uint (frame_data msg ! 2), tm_cond = uint (frame_data msg ! 3),
                    tm_fan_raw = uint (frame_data msg ! 6),
                    tm_state_raw = uint (frame_data msg ! 7),
                    tm_raw = map uint (frame_data msg)\<rparr>,
         Text (TelemLine (uint (frame_data msg ! 1)) (uint (frame_data msg ! 2))
                 (uint (frame_data msg ! 3)) (uint (frame_data msg ! 6))
                 (uint (frame_data msg ! 7)) (uint (frame_data msg ! 0)))]"
    by (simp add: controller_match_def signature_match_def rx_frame_def Let_def)
next
  assume a: "\<not> controller_match cf msg \<and> inverter_match cf msg"
  then have len: "3 \<le> length (frame_data msg)" "frame_data msg \<noteq> []"
    by (auto simp: inverter_match_def signature_match_def)
  from a show "\<exists>ev. rx_frame cf msg =
        [Text (DbgRx (arbitration_id msg) (is_extended_id msg) (length (frame_data msg))),
         Inv ev,
         Text (InvLine (iv_cur ev) (iv_volt ev) (iv_temp ev)
                 (iv_err5 ev) (iv_state6 ev) (iv_state7 ev))] \<and>
        iv_cur ev = uint (frame_data msg ! 0) \<and>
        iv_volt ev = uint (frame_data msg ! 1) \<and>
        iv_temp ev = uint (frame_data msg ! 2) \<and>
        iv_raw ev = map uint (frame_data msg) \<and>
        iv_err5 ev =
          (if 6 \<le> length (frame_data msg) then Some (uint (frame_data msg ! 5)) else None) \<and>
        iv_state6 ev =
          (if 7 \<le> length (frame_data msg) then Some (uint (frame_data msg ! 6)) else None) \<and>
        iv_state7 ev =
          (if 8 \<le> length (frame_data msg) then Some (uint (frame_data msg ! 7)) else None)"
    using len
    by (auto simp: controller_match_def inverter_match_def signature_match_def rx_frame_def
        Let_def max_def)
next
  assume "\<not> controller_match cf msg \<and> \<not> inverter_match cf msg"
  then show "rx_frame cf msg =
        [Text (DbgRx (arbitration_id msg) (is_extended_id msg) (length (frame_data msg))),
         Text (NotMatched (arbitration_id msg) (is_extended_id msg) (length (frame_data msg))
                 (telemetry_id cf) (telemetry_ext cf) (inverter_id cf) (inverter_ext cf)),
         Text (CanRxLine (arbitration_id msg) (map uint (frame_data msg)))]"
    by (auto simp: controller_match_def inverter_match_def signature_match_def rx_frame_def
        Let_def)
next
  show "Text CanRxErr \<notin> set (rx_once cf (RecvFrame msg))"
    by (simp add: rx_frame_def Let_def)
qed

lemma sample_matches:
  "controller_match sample_cfg ctrl_frame"
  "\<not> controller_match sample_cfg inv_frame_short" "inverter_match sample_cfg inv_frame_short"
  "\<not> controller_match sample_cfg foreign_frame" "\<not> inverter_match sample_cfg foreign_frame"
  by (simp_all add: controller_match_def inverter_match_def signature_match_def sample_cfg_def
      ctrl_frame_def inv_frame_short_def foreign_frame_def)

theorem rx_frame_dispatch_witness:
  "controller_match sample_cfg ctrl_frame \<and>
   rx_frame sample_cfg ctrl_frame =
     [Text (DbgRx 0x5E0100 True 8),
      Telemetry \<lparr>tm_err = 0, tm_set = 22, tm_temp = 24, tm_cond = 30, tm_fan_raw = 0x12,
                 tm_state_raw = 0x23, tm_raw = [0, 22, 24, 30, 0, 0, 0x12, 0x23]\<rparr>,
      Text (TelemLine 22 24 30 0x12 0x23 0)] \<and>
   inverter_match sample_cfg inv_frame_short \<and>
   rx_frame sample_cfg inv_frame_short =
     [Text (DbgRx 0x5E0200 True 6),
      Inv \<lparr>iv_cur = 5, iv_volt = 48, iv_temp = 40, iv_raw = [5, 48, 40, 0, 0, 9],
           iv_err5 = Some 9, iv_state6 = None, iv_state7 = None\<rparr>,
      Text (InvLine 5 48 40 (Some 9) None None)] \<and>
   rx_frame sample_cfg foreign_frame =
     [Text (DbgRx 0x123 False 2),
      Text (NotMatched 0x123 False 2 0x5E0100 True 0x5E0200 True),
      Text (CanRxLine 0x123 [0xDE, 0xAD])]"
proof -
  have 1: "rx_frame sample_cfg ctrl_frame =
     [Text (DbgRx 0x5E0100 True 8),
      Telemetry \<lparr>tm_err = 0, tm_set = 22, tm_temp = 24, tm_cond = 30, tm_fan_raw = 0x12,
                 tm_state_raw = 0x23, tm_raw = [0, 22, 24, 30, 0, 0, 0x12, 0x23]\<rparr>,
      Text (TelemLine 22 24 30 0x12 0x23 0)]"
    using rx_frame_dispatch [of sample_cfg ctrl_frame] sample_matches(1)
    by (simp add: ctrl_frame_def)
  obtain ev where ev: "rx_frame sample_cfg inv_frame_short =
        [Text (DbgRx (arbitration_id inv_frame_short) (is_extended_id inv_frame_short)
           (length (frame_data inv_frame_short))),
         Inv ev,
         Text (InvLine (iv_cur ev) (iv_volt ev) (iv_temp ev)
                 (iv_err5 ev) (iv_state6 ev) (iv_state7 ev))]"
     "iv_cur ev = 5" "iv_volt ev = 48" "iv_temp ev = 40" "iv_raw ev = [5, 48, 40, 0, 0, 9]"
     "iv_err5 ev = Some 9" "iv_state6 ev = None" "iv_state7 ev = None"
    using rx_frame_dispatch [of sample_cfg inv_frame_short] sample_matches(2,3)
    by (auto simp: inv_frame_short_def)
  then have "ev = \<lparr>iv_cur = 5, iv_volt = 48, iv_temp = 40, iv_raw = [5, 48, 40, 0, 0, 9],
           iv_err5 = Some 9, iv_state6 = None, iv_state7 = None\<rparr>"
    by (cases ev) simp
  with ev(1) have 2: "rx_frame sample_cfg inv_frame_short =
     [Text (DbgRx 0x5E0200 True 6),
      Inv \<lparr>iv_cur = 5, iv_volt = 48, iv_temp = 40, iv_raw = [5, 48, 40, 0, 0, 9],
           iv_err5 = Some 9, iv_state6 = None, iv_state7 = None\<rparr>,
      Text (InvLine 5 48 40 (Some 9) None None)]"
    by (simp add: inv_frame_short_def)
  have 3: "rx_frame sample_cfg foreign_frame =
     [Text (DbgRx 0x123 False 2),
      Text (NotMatched 0x123 False 2 0x5E0100 True 0x5E0200 True),
      Text (CanRxLine 0x123 [0xDE, 0xAD])]"
    using rx_frame_dispatch [of sample_cfg foreign_frame] sample_matches(4,5)
    by (simp add: foreign_frame_def sample_cfg_def)
  show ?thesis using 1 2 3 sample_matches by simp
qed

section \<open>Properties of the periodic poll\<close>

lemma drain_Cons_fst:
  "fst (drain now (it # items) st) = fst (drain now items (fst (poll_item now it st)))"
  by (simp add: split_beta)

lemma drain_Cons_snd:
  "snd (drain now (it # items) st) =
     snd (poll_item now it st) @ snd (drain now items (fst (poll_item now it st)))"
  by (simp add: split_beta)

lemma drain_append_fst:
  "fst (drain now (xs @ ys) st) = fst (drain now ys (fst (drain now xs st)))"
  by (induction xs arbitrary: st) (simp_all add: split_beta)

lemma poll_fst:
  "fst (poll now items st) =
     fst (check_inv_timeout now (fst (check_ctrl_timeout now (fst (drain now items st)))))"
  by (simp add: poll_def split_beta)

lemma poll_snd:
  "snd (poll now items st) =
     snd (drain now items st) @
     snd (check_ctrl_timeout now (fst (drain now items st))) @
     snd (check_inv_timeout now (fst (check_ctrl_timeout now (fst (drain now items st)))))"
  by (simp add: poll_def split_beta)

lemma run_polls_Cons_fst:
  "fst (run_polls ((now, items) # ps) st) = fst (run_polls ps (fst (poll now items st)))"
  by (simp add: split_beta)

lemma run_polls_Cons_snd:
  "snd (run_polls ((now, items) # ps) st) =
     snd (poll now items st) @ snd (run_polls ps (fst (poll now items st)))"
  by (simp add: split_beta)

lemma poll_item_log:
  "TimeoutCtrlLog \<notin> set (snd (poll_item now it st)) \<and>
   TimeoutInvLog \<notin> set (snd (poll_item now it st))"
  by (cases it) (simp_all add: Let_def)

lemma drain_log:
  "TimeoutCtrlLog \<notin> set (snd (drain now items st)) \<and>
   TimeoutInvLog \<notin> set (snd (drain now items st))"
  by (induction items arbitrary: st) (simp_all add: split_beta poll_item_log)

lemma poll_item_keeps_ctrl:
  "\<not> is_telemetry it \<Longrightarrow>
     ctrl_valid (fst (poll_item now it st)) = ctrl_valid st \<and>
     last_ctrl_rx (fst (poll_item now it st)) = last_ctrl_rx st \<and>
     var_set (fst (poll_item now it st)) = var_set st \<and>
     last_main_state (fst (poll_item now it st)) = last_main_state st"
  by (cases it) (simp_all add: Let_def)

lemma poll_item_keeps_inv:
  "\<not> is_inv it \<Longrightarrow>
     inv_valid (fst (poll_item now it st)) = inv_valid st \<and>
     last_inv_rx (fst (poll_item now it st)) = last_inv_rx st"
  by (cases it) (simp_all add: Let_def)

lemma drain_keeps_ctrl:
  "\<forall>i\<in>set items. \<not> is_telemetry i \<Longrightarrow>
     ctrl_valid (fst (drain now items st)) = ctrl_valid st \<and>
     last_ctrl_rx (fst (drain now items st)) = last_ctrl_rx st \<and>
     var_set (fst (drain now items st)) = var_set st \<and>
     last_main_state (fst (drain now items st)) = last_main_state st"
proof (induction items arbitrary: st)
  case Nil
  show ?case by simp
next
  case (Cons it items)
  then have "\<not> is_telemetry it" and "\<forall>i\<in>set items. \<not> is_telemetry i" by simp_all
  then show ?case
    using Cons.IH [of "fst (poll_item now it st)"] poll_item_keeps_ctrl [of it now st]
    by (simp add: drain_Cons_fst del: drain.simps)
qed

lemma drain_keeps_inv:
  "\<forall>i\<in>set items. \<not> is_inv i \<Longrightarrow>
     inv_valid (fst (drain now items st)) = inv_valid st \<and>
     last_inv_rx (fst (drain now items st)) = last_inv_rx st"
proof (induction items arbitrary: st)
  case Nil
  show ?case by simp
next
  case (Cons it items)
  then have "\<not> is_inv it" and "\<forall>i\<in>set items. \<not> is_inv i" by simp_all
  then show ?case
    using Cons.IH [of "fst (poll_item now it st)"] poll_item_keeps_inv [of it now st]
    by (simp add: drain_Cons_fst del: drain.simps)
qed

lemma drain_last_telemetry:
  assumes "\<forall>i\<in>set post. \<not> is_telemetry i"
  shows "ctrl_valid (fst (drain now (pre @ Telemetry t # post) st)) \<and>
     last_ctrl_rx (fst (drain now (pre @ Telemetry t # post) st)) = now \<and>
     var_set (fst (drain now (pre @ Telemetry t # post) st)) = py_str (tm_set t) \<and>
     last_main_state (fst (drain now (pre @ Telemetry t # post) st)) =
       Some (drop_bit 4 (tm_state_raw t) AND 15)"
  using drain_keeps_ctrl [OF assms, of now "fst (poll_item now (Telemetry t) (fst (drain now pre st)))"]
  by (simp add: drain_append_fst drain_Cons_fst Let_def del: drain.simps)

lemma drain_last_inv:
  assumes "\<forall>i\<in>set post. \<not> is_inv i"
  shows "inv_valid (fst (drain now (pre @ Inv t # post) st)) \<and>
     last_inv_rx (fst (drain now (pre @ Inv t # post) st)) = now"
  using drain_keeps_inv [OF assms, of now "fst (poll_item now (Inv t) (fst (drain now pre st)))"]
  by (simp add: drain_append_fst drain_Cons_fst Let_def del: drain.simps)

lemma drain_some_telemetry:
  assumes "\<exists>i\<in>set items. is_telemetry i"
  shows "ctrl_valid (fst (drain now items st)) \<and> last_ctrl_rx (fst (drain now items st)) = now"
proof -
  from assms obtain pre x post where
    s: "items = pre @ x # post" "is_telemetry x" "\<forall>i\<in>set post. \<not> is_telemetry i"
    using split_list_last_prop [of items is_telemetry] by blast
  then obtain t where "x = Telemetry t" by (cases x) simp_all
  with s drain_last_telemetry [of post now pre t st] show ?thesis by simp
qed

lemma drain_some_inv:
  assumes "\<exists>i\<in>set items. is_inv i"
  shows "inv_valid (fst (drain now items st)) \<and> last_inv_rx (fst (drain now items st)) = now"
proof -
  from assms obtain pre x post where
    s: "items = pre @ x # post" "is_inv x" "\<forall>i\<in>set post. \<not> is_inv i"
    using split_list_last_prop [of items is_inv] by blast
  then obtain t where "x = Inv t" by (cases x) simp_all
  with s drain_last_inv [of post now pre t st] show ?thesis by simp
qed

lemma check_inv_keeps_ctrl:
  "ctrl_valid (fst (check_inv_timeout now st)) = ctrl_valid st \<and>
   last_ctrl_rx (fst (check_inv_timeout now st)) = last_ctrl_rx st \<and>
   var_set (fst (check_inv_timeout now st)) = var_set st \<and>
   last_main_state (fst (check_inv_timeout now st)) = last_main_state st \<and>
   client (fst (check_inv_timeout now st)) = client st \<and>
   TimeoutCtrlLog \<notin> set (snd (check_inv_timeout now st))"
  by (simp add: check_inv_timeout_def reset_inv_display_def)

lemma check_ctrl_keeps_inv:
  "inv_valid (fst (check_ctrl_timeout now st)) = inv_valid st \<and>
   last_inv_rx (fst (check_ctrl_timeout now st)) = last_inv_rx st \<and>
   last_main_state (fst (check_ctrl_timeout now st)) = last_main_state st \<and>
   client (fst (check_ctrl_timeout now st)) = client st \<and>
   TimeoutInvLog \<notin> set (snd (check_ctrl_timeout now st))"
  by (simp add: check_ctrl_timeout_def reset_ctrl_display_def)

lemma check_ctrl_effect:
  "ctrl_valid (fst (check_ctrl_timeout now st)) =
     (ctrl_valid st \<and> \<not> TIMEOUT_S < now - last_ctrl_rx st) \<and>
   last_ctrl_rx (fst (check_ctrl_timeout now st)) = last_ctrl_rx st \<and>
   snd (check_ctrl_timeout now st) =
     (if ctrl_valid st \<and> TIMEOUT_S < now - last_ctrl_rx st then [TimeoutCtrlLog] else []) \<and>
   var_set (fst (check_ctrl_timeout now st)) =
     (if ctrl_valid st \<and> TIMEOUT_S < now - last_ctrl_rx st then ''--'' else var_set st)"
  by (auto simp: check_ctrl_timeout_def reset_ctrl_display_def)

lemma check_inv_effect:
  "inv_valid (fst (check_inv_timeout now st)) =
     (inv_valid st \<and> \<not> TIMEOUT_S < now - last_inv_rx st) \<and>
   last_inv_rx (fst (check_inv_timeout now st)) = last_inv_rx st \<and>
   snd (check_inv_timeout now st) =
     (if inv_valid st \<and> TIMEOUT_S < now - last_inv_rx st then [TimeoutInvLog] else [])"
  by (auto simp: check_inv_timeout_def reset_inv_display_def)

lemma not_timeout_now: "\<not> TIMEOUT_S < now - now"
  by (simp add: TIMEOUT_S_def)

lemma count_notin: "x \<notin> set xs \<Longrightarrow> count_list xs x = 0"
  by (simp add: count_list_0_iff)

lemma poll_ctrl_silent:
  assumes "\<forall>i\<in>set items. \<not> is_telemetry i"
  shows "ctrl_valid (fst (poll now items st)) =
           (ctrl_valid st \<and> \<not> TIMEOUT_S < now - last_ctrl_rx st)"
    and "last_ctrl_rx (fst (poll now items st)) = last_ctrl_rx st"
    and "count_list (snd (poll now items st)) TimeoutCtrlLog =
           (if ctrl_valid st \<and> TIMEOUT_S < now - last_ctrl_rx st then 1 else 0)"
    and "var_set (fst (poll now items st)) =
           (if ctrl_valid st \<and> TIMEOUT_S < now - last_ctrl_rx st then ''--'' else var_set st)"
    and "last_main_state (fst (poll now items st)) = last_main_state st"
proof -
  let ?s1 = "fst (drain now items st)"
  let ?s2 = "fst (check_ctrl_timeout now ?s1)"
  note d = drain_keeps_ctrl [OF assms, of now st]
  note c = check_ctrl_effect [of now ?s1]
  note k = check_inv_keeps_ctrl [of now ?s2]
  show "ctrl_valid (fst (poll now items st)) =
           (ctrl_valid st \<and> \<not> TIMEOUT_S < now - last_ctrl_rx st)"
    using d c k by (simp add: poll_fst)
  show "last_ctrl_rx (fst (poll now items st)) = last_ctrl_rx st"
    using d c k by (simp add: poll_fst)
  show "var_set (fst (poll now items st)) =
           (if ctrl_valid st \<and> TIMEOUT_S < now - last_ctrl_rx st then ''--'' else var_set st)"
    using d c k by (simp add: poll_fst)
  show "last_main_state (fst (poll now items st)) = last_main_state st"
    using d k check_ctrl_keeps_inv [of now ?s1] by (simp add: poll_fst)
  have "count_list (snd (drain now items st)) TimeoutCtrlLog = 0"
    using drain_log [of now items st] by (simp add: count_notin)
  moreover have "count_list (snd (check_inv_timeout now ?s2)) TimeoutCtrlLog = 0"
    using k by (simp add: count_notin)
  ultimately show "count_list (snd (poll now items st)) TimeoutCtrlLog =
           (if ctrl_valid st \<and> TIMEOUT_S < now - last_ctrl_rx st then 1 else 0)"
    using d c by (simp add: poll_snd)
qed

lemma poll_inv_silent:
  assumes "\<forall>i\<in>set items. \<not> is_inv i"
  shows "inv_valid (fst (poll now items st)) =
           (inv_valid st \<and> \<not> TIMEOUT_S < now - last_inv_rx st)"
    and "last_inv_rx (fst (poll now items st)) = last_inv_rx st"
    and "count_list (snd (poll now items st)) TimeoutInvLog =
           (if inv_valid st \<and> TIMEOUT_S < now - last_inv_rx st then 1 else 0)"
proof -
  let ?s1 = "fst (drain now items st)"
  let ?s2 = "fst (check_ctrl_timeout now ?s1)"
  note d = drain_keeps_inv [OF assms, of now st]
  note k = check_ctrl_keeps_inv [of now ?s1]
  note c = check_inv_effect [of now ?s2]
  show "inv_valid (fst (poll now items st)) =
           (inv_valid st \<and> \<not> TIMEOUT_S < now - last_inv_rx st)"
    using d c k by (simp add: poll_fst)
  show "last_inv_rx (fst (poll now items st)) = last_inv_rx st"
    using d c k by (simp add: poll_fst)
  have "count_list (snd (drain now items st)) TimeoutInvLog = 0"
    using drain_log [of now items st] by (simp add: count_notin)
  moreover have "count_list (snd (check_ctrl_timeout now ?s1)) TimeoutInvLog = 0"
    using k by (simp add: count_notin)
  ultimately show "count_list (snd (poll now items st)) TimeoutInvLog =
           (if inv_valid st \<and> TIMEOUT_S < now - last_inv_rx st then 1 else 0)"
    using d c k by (simp add: poll_snd)
qed

lemma poll_ctrl_heard:
  assumes "\<exists>i\<in>set items. is_telemetry i"
  shows "ctrl_valid (fst (poll now items st))"
    and "last_ctrl_rx (fst (poll now items st)) = now"
    and "TimeoutCtrlLog \<notin> set (snd (poll now items st))"
proof -
  let ?s1 = "fst (drain now items st)"
  let ?s2 = "fst (check_ctrl_timeout now ?s1)"
  note d = drain_some_telemetry [OF assms, of now st]
  note c = check_ctrl_effect [of now ?s1]
  note k = check_inv_keeps_ctrl [of now ?s2]
  show "ctrl_valid (fst (poll now items st))"
    using d c k not_timeout_now [of now] by (simp add: poll_fst)
  show "last_ctrl_rx (fst (poll now items st)) = now"
    using d c k by (simp add: poll_fst)
  show "TimeoutCtrlLog \<notin> set (snd (poll now items st))"
    using d c k drain_log [of now items st] not_timeout_now [of now] by (simp add: poll_snd)
qed

lemma poll_inv_heard:
  assumes "\<exists>i\<in>set items. is_inv i"
  shows "inv_valid (fst (poll now items st))"
    and "last_inv_rx (fst (poll now items st)) = now"
    and "TimeoutInvLog \<notin> set (snd (poll now items st))"
proof -
  let ?s1 = "fst (drain now items st)"
  let ?s2 = "fst (check_ctrl_timeout now ?s1)"
  note d = drain_some_inv [OF assms, of now st]
  note k = check_ctrl_keeps_inv [of now ?s1]
  note c = check_inv_effect [of now ?s2]
  show "inv_valid (fst (poll now items st))"
    using d c k not_timeout_now [of now] by (simp add: poll_fst)
  show "last_inv_rx (fst (poll now items st)) = now"
    using d c k by (simp add: poll_fst)
  show "TimeoutInvLog \<notin> set (snd (poll now items st))"
    using d c k drain_log [of now items st] not_timeout_now [of now] by (simp add: poll_snd)
qed

lemma run_polls_ctrl_silent:
  assumes "\<not> ctrl_valid st" and "\<forall>p\<in>set ps. \<forall>i\<in>set (snd p). \<not> is_telemetry i"
  shows "\<not> ctrl_valid (fst (run_polls ps st)) \<and>
         TimeoutCtrlLog \<notin> set (snd (run_polls ps st)) \<and>
         var_set (fst (run_polls ps st)) = var_set st \<and>
         last_main_state (fst (run_polls ps st)) = last_main_state st"
  using assms
proof (induction ps arbitrary: st)
  case Nil
  show ?case using Nil by simp
next
  case (Cons p ps)
  obtain now items where p: "p = (now, items)" by (cases p)
  from Cons.prems have q: "\<forall>i\<in>set items. \<not> is_telemetry i"
    and r: "\<forall>p\<in>set ps. \<forall>i\<in>set (snd p). \<not> is_telemetry i" by (simp_all add: p)
  let ?s = "fst (poll now items st)"
  have 1: "\<not> ctrl_valid ?s" "var_set ?s = var_set st" "last_main_state ?s = last_main_state st"
    "count_list (snd (poll now items st)) TimeoutCtrlLog = 0"
    using poll_ctrl_silent [OF q, of now st] Cons.prems(1) by simp_all
  then have 2: "TimeoutCtrlLog \<notin> set (snd (poll now items st))"
    by (simp add: count_list_0_iff)
  show ?case
    using Cons.IH [OF 1(1) r] 1 2
    by (simp add: p run_polls_Cons_fst run_polls_Cons_snd del: run_polls.simps)
qed

lemma run_polls_inv_silent:
  assumes "\<not> inv_valid st" and "\<forall>p\<in>set ps. \<forall>i\<in>set (snd p). \<not> is_inv i"
  shows "\<not> inv_valid (fst (run_polls ps st)) \<and>
         TimeoutInvLog \<notin> set (snd (run_polls ps st))"
  using assms
proof (induction ps arbitrary: st)
  case Nil
  show ?case using Nil by simp
next
  case (Cons p ps)
  obtain now items where p: "p = (now, items)" by (cases p)
  from Cons.prems have q: "\<forall>i\<in>set items. \<not> is_inv i"
    and r: "\<forall>p\<in>set ps. \<forall>i\<in>set (snd p). \<not> is_inv i" by (simp_all add: p)
  let ?s = "fst (poll now items st)"
  have 1: "\<not> inv_valid ?s"
    "count_list (snd (poll now items st)) TimeoutInvLog = 0"
    using poll_inv_silent [OF q, of now st] Cons.prems(1) by simp_all
  then have 2: "TimeoutInvLog \<notin> set (snd (poll now items st))"
    by (simp add: count_list_0_iff)
  show ?case
    using Cons.IH [OF 1(1) r] 1 2
    by (simp add: p run_polls_Cons_fst run_polls_Cons_snd del: run_polls.simps)
qed


lemma reset_ctrl_shows:
  "ctrl_display (reset_ctrl_display st) = (''--'', ''--'', ''--'', ''-'', ''-'', ''net'', 0, 0)"
  by (simp add: ctrl_display_def reset_ctrl_display_def)

lemma reset_inv_shows:
  "inv_display (reset_inv_display st) = (''--'', ''--'', ''--'', ''-'', ''-'', ''-'')"
  by (simp add: inv_display_def reset_inv_display_def)

lemma poll_item_keeps_ctrl_display:
  "\<not> is_telemetry it \<Longrightarrow> ctrl_display (fst (poll_item now it st)) = ctrl_display st"
  by (cases it) (simp_all add: Let_def ctrl_display_def)

lemma poll_item_keeps_inv_display:
  "\<not> is_inv it \<Longrightarrow> inv_display (fst (poll_item now it st)) = inv_display st"
  by (cases it) (simp_all add: Let_def inv_display_def)

lemma drain_keeps_ctrl_display:
  "\<forall>i\<in>set items. \<not> is_telemetry i \<Longrightarrow>
     ctrl_display (fst (drain now items st)) = ctrl_display st"
proof (induction items arbitrary: st)
  case Nil
  show ?case by simp
next
  case (Cons it items)
  then have "\<not> is_telemetry it" and "\<forall>i\<in>set items. \<not> is_telemetry i" by simp_all
  then show ?case
    using Cons.IH [of "fst (poll_item now it st)"] poll_item_keeps_ctrl_display [of it now st]
    by (simp add: drain_Cons_fst del: drain.simps)
qed

lemma drain_keeps_inv_display:
  "\<forall>i\<in>set items. \<not> is_inv i \<Longrightarrow>
     inv_display (fst (drain now items st)) = inv_display st"
proof (induction items arbitrary: st)
  case Nil
  show ?case by simp
next
  case (Cons it items)
  then have "\<not> is_inv it" and "\<forall>i\<in>set items. \<not> is_inv i" by simp_all
  then show ?case
    using Cons.IH [of "fst (poll_item now it st)"] poll_item_keeps_inv_display [of it now st]
    by (simp add: drain_Cons_fst del: drain.simps)
qed

lemma check_ctrl_display:
  "ctrl_display (fst (check_ctrl_timeout now st)) =
     (if ctrl_valid st \<and> TIMEOUT_S < now - last_ctrl_rx st
      then ctrl_display (reset_ctrl_display st) else ctrl_display st)"
  "inv_display (fst (check_ctrl_timeout now st)) = inv_display st"
  by (simp_all add: check_ctrl_timeout_def reset_ctrl_display_def ctrl_display_def
      inv_display_def)

lemma check_inv_display:
  "inv_display (fst (check_inv_timeout now st)) =
     (if inv_valid st \<and> TIMEOUT_S < now - last_inv_rx st
      then inv_display (reset_inv_display st) else inv_display st)"
  "ctrl_display (fst (check_inv_timeout now st)) = ctrl_display st"
  by (simp_all add: check_inv_timeout_def reset_inv_display_def ctrl_display_def
      inv_display_def)

lemma poll_ctrl_display_silent:
  assumes "\<forall>i\<in>set items. \<not> is_telemetry i"
  shows "ctrl_display (fst (poll now items st)) =
     (if ctrl_valid st \<and> TIMEOUT_S < now - last_ctrl_rx st
      then ctrl_display (reset_ctrl_display st) else ctrl_display st)"
  using drain_keeps_ctrl [OF assms, of now st] drain_keeps_ctrl_display [OF assms, of now st]
  by (simp add: poll_fst check_inv_display(2) check_ctrl_display(1) reset_ctrl_shows)

lemma poll_inv_display_silent:
  assumes "\<forall>i\<in>set items. \<not> is_inv i"
  shows "inv_display (fst (poll now items st)) =
     (if inv_valid st \<and> TIMEOUT_S < now - last_inv_rx st
      then inv_display (reset_inv_display st) else inv_display st)"
  using drain_keeps_inv [OF assms, of now st] drain_keeps_inv_display [OF assms, of now st]
    check_ctrl_keeps_inv [of now "fst (drain now items st)"]
  by (simp add: poll_fst check_inv_display(1) check_ctrl_display(2) reset_inv_shows)

lemma run_polls_ctrl_display_silent:
  assumes "\<not> ctrl_valid st" and "\<forall>p\<in>set ps. \<forall>i\<in>set (snd p). \<not> is_telemetry i"
  shows "ctrl_display (fst (run_polls ps st)) = ctrl_display st"
  using assms
proof (induction ps arbitrary: st)
  case Nil
  show ?case by simp
next
  case (Cons p ps)
  obtain now items where p: "p = (now, items)" by (cases p)
  from Cons.prems have q: "\<forall>i\<in>set items. \<not> is_telemetry i"
    and r: "\<forall>p\<in>set ps. \<forall>i\<in>set (snd p). \<not> is_telemetry i" by (simp_all add: p)
  have 1: "\<not> ctrl_valid (fst (poll now items st))"
    using poll_ctrl_silent(1) [OF q, of now st] Cons.prems(1) by simp
  have 2: "ctrl_display (fst (poll now items st)) = ctrl_display st"
    using poll_ctrl_display_silent [OF q, of now st] Cons.prems(1) by simp
  show ?case using Cons.IH [OF 1 r] 2
    by (simp add: p run_polls_Cons_fst del: run_polls.simps)
qed

lemma run_polls_inv_display_silent:
  assumes "\<not> inv_valid st" and "\<forall>p\<in>set ps. \<forall>i\<in>set (snd p). \<not> is_inv i"
  shows "inv_display (fst (run_polls ps st)) = inv_display st"
  using assms
proof (induction ps arbitrary: st)
  case Nil
  show ?case by simp
next
  case (Cons p ps)
  obtain now items where p: "p = (now, items)" by (cases p)
  from Cons.prems have q: "\<forall>i\<in>set items. \<not> is_inv i"
    and r: "\<forall>p\<in>set ps. \<forall>i\<in>set (snd p). \<not> is_inv i" by (simp_all add: p)
  have 1: "\<not> inv_valid (fst (poll now items st))"
    using poll_inv_silent(1) [OF q, of now st] Cons.prems(1) by simp
  have 2: "inv_display (fst (poll now items st)) = inv_display st"
    using poll_inv_display_silent [OF q, of now st] Cons.prems(1) by simp
  show ?case using Cons.IH [OF 1 r] 2
    by (simp add: p run_polls_Cons_fst del: run_polls.simps)
qed

text \<open>
  C3. Liveness of each channel (controller and inverter alike). The application starts with
  both channels not valid. A channel that is not valid and receives no snapshot stays not
  valid through any number of polls; none of them logs its timeout reset and the display
  of the channel is left as it is: so a channel never heard does not go stale, and a stale
  one does not fire the reset again. A valid channel that receives nothing in a poll stays
  valid exactly when that poll does not observe \<open>now - last_rx > 10\<close>; when it does, the
  poll runs the display reset of the channel and logs it exactly once, and when it does not
  the display is untouched. The display reset puts the placeholders into every variable of
  the channel. A poll that dequeues a snapshot leaves the channel valid with
  \<open>last_rx = now\<close> and logs no reset.
\<close>

theorem liveness_state_machine:
  "(\<not> ctrl_valid sa \<and> (\<forall>p\<in>set ps. \<forall>i\<in>set (snd p). \<not> is_telemetry i) \<longrightarrow>
      \<not> ctrl_valid (fst (run_polls ps sa)) \<and>
      TimeoutCtrlLog \<notin> set (snd (run_polls ps sa)) \<and>
      ctrl_display (fst (run_polls ps sa)) = ctrl_display sa) \<and>
   (ctrl_valid sb \<and> (\<forall>i\<in>set quiet. \<not> is_telemetry i) \<longrightarrow>
      ctrl_valid (fst (poll now quiet sb)) = (\<not> 10 < now - last_ctrl_rx sb) \<and>
      last_ctrl_rx (fst (poll now quiet sb)) = last_ctrl_rx sb \<and>
      count_list (snd (poll now quiet sb)) TimeoutCtrlLog =
        (if 10 < now - last_ctrl_rx sb then 1 else 0) \<and>
      ctrl_display (fst (poll now quiet sb)) =
        (if 10 < now - last_ctrl_rx sb then ctrl_display (reset_ctrl_display sb)
         else ctrl_display sb)) \<and>
   ((\<exists>i\<in>set heard. is_telemetry i) \<longrightarrow>
      ctrl_valid (fst (poll t heard sc)) \<and> last_ctrl_rx (fst (poll t heard sc)) = t \<and>
      TimeoutCtrlLog \<notin> set (snd (poll t heard sc))) \<and>
   (\<not> inv_valid sa \<and> (\<forall>p\<in>set ps. \<forall>i\<in>set (snd p). \<not> is_inv i) \<longrightarrow>
      \<not> inv_valid (fst (run_polls ps sa)) \<and>
      TimeoutInvLog \<notin> set (snd (run_polls ps sa)) \<and>
      inv_display (fst (run_polls ps sa)) = inv_display sa) \<and>
   (inv_valid sb \<and> (\<forall>i\<in>set quiet. \<not> is_inv i) \<longrightarrow>
      inv_valid (fst (poll now quiet sb)) = (\<not> 10 < now - last_inv_rx sb) \<and>
      last_inv_rx (fst (poll now quiet sb)) = last_inv_rx sb \<and>
      count_list (snd (poll now quiet sb)) TimeoutInvLog =
        (if 10 < now - last_inv_rx sb then 1 else 0) \<and>
      inv_display (fst (poll now quiet sb)) =
        (if 10 < now - last_inv_rx sb then inv_display (reset_inv_display sb)
         else inv_display sb)) \<and>
   ((\<exists>i\<in>set heard. is_inv i) \<longrightarrow>
      inv_valid (fst (poll t heard sc)) \<and> last_inv_rx (fst (poll t heard sc)) = t \<and>
      TimeoutInvLog \<notin> set (snd (poll t heard sc))) \<and>
   ctrl_display (reset_ctrl_display sr) = (''--'', ''--'', ''--'', ''-'', ''-'', ''net'', 0, 0) \<and>
   inv_display (reset_inv_display sr) = (''--'', ''--'', ''--'', ''-'', ''-'', ''-'') \<and>
   \<not> ctrl_valid init_app \<and> \<not> inv_valid init_app"
proof (intro conjI impI)
  assume a: "\<not> ctrl_valid sa \<and> (\<forall>p\<in>set ps. \<forall>i\<in>set (snd p). \<not> is_telemetry i)"
  then show "\<not> ctrl_valid (fst (run_polls ps sa))"
    and "TimeoutCtrlLog \<notin> set (snd (run_polls ps sa))"
    using run_polls_ctrl_silent [of sa ps] by blast+
  from a show "ctrl_display (fst (run_polls ps sa)) = ctrl_display sa"
    using run_polls_ctrl_display_silent [of sa ps] by blast
next
  assume a: "ctrl_valid sb \<and> (\<forall>i\<in>set quiet. \<not> is_telemetry i)"
  then have q: "\<forall>i\<in>set quiet. \<not> is_telemetry i" by blast
  show "ctrl_valid (fst (poll now quiet sb)) = (\<not> 10 < now - last_ctrl_rx sb)"
    using poll_ctrl_silent(1) [OF q, of now sb] a by (simp add: TIMEOUT_S_def)
  show "last_ctrl_rx (fst (poll now quiet sb)) = last_ctrl_rx sb"
    using poll_ctrl_silent(2) [OF q] .
  show "count_list (snd (poll now quiet sb)) TimeoutCtrlLog =
        (if 10 < now - last_ctrl_rx sb then 1 else 0)"
    using poll_ctrl_silent(3) [OF q, of now sb] a by (simp add: TIMEOUT_S_def)
  show "ctrl_display (fst (poll now quiet sb)) =
        (if 10 < now - last_ctrl_rx sb then ctrl_display (reset_ctrl_display sb)
         else ctrl_display sb)"
    using poll_ctrl_display_silent [OF q, of now sb] a by (simp add: TIMEOUT_S_def)
next
  assume h: "\<exists>i\<in>set heard. is_telemetry i"
  show "ctrl_valid (fst (poll t heard sc))"
    and "last_ctrl_rx (fst (poll t heard sc)) = t"
    and "TimeoutCtrlLog \<notin> set (snd (poll t heard sc))"
    using poll_ctrl_heard [OF h] by blast+
next
  assume a: "\<not> inv_valid sa \<and> (\<forall>p\<in>set ps. \<forall>i\<in>set (snd p). \<not> is_inv i)"
  then show "\<not> inv_valid (fst (run_polls ps sa))"
    and "TimeoutInvLog \<notin> set (snd (run_polls ps sa))"
    using run_polls_inv_silent [of sa ps] by blast+
  from a show "inv_display (fst (run_polls ps sa)) = inv_display sa"
    using run_polls_inv_display_silent [of sa ps] by blast
next
  assume a: "inv_valid sb \<and> (\<forall>i\<in>set quiet. \<not> is_inv i)"
  then have q: "\<forall>i\<in>set quiet. \<not> is_inv i" by blast
  show "inv_valid (fst (poll now quiet sb)) = (\<not> 10 < now - last_inv_rx sb)"
    using poll_inv_silent(1) [OF q, of now sb] a by (simp add: TIMEOUT_S_def)
  show "last_inv_rx (fst (poll now quiet sb)) = last_inv_rx sb"
    using poll_inv_silent(2) [OF q] .
  show "count_list (snd (poll now quiet sb)) TimeoutInvLog =
        (if 10 < now - last_inv_rx sb then 1 else 0)"
    using poll_inv_silent(3) [OF q, of now sb] a by (simp add: TIMEOUT_S_def)
  show "inv_display (fst (poll now quiet sb)) =
        (if 10 < now - last_inv_rx sb then inv_display (reset_inv_display sb)
         else inv_display sb)"
    using poll_inv_display_silent [OF q, of now sb] a by (simp add: TIMEOUT_S_def)
next
  assume h: "\<exists>i\<in>set heard. is_inv i"
  show "inv_valid (fst (poll t heard sc))"
    and "last_inv_rx (fst (poll t heard sc)) = t"
    and "TimeoutInvLog \<notin> set (snd (poll t heard sc))"
    using poll_inv_heard [OF h] by blast+
next
  show "ctrl_display (reset_ctrl_display sr) =
      (''--'', ''--'', ''--'', ''-'', ''-'', ''net'', 0, 0)"
    by (rule reset_ctrl_shows)
  show "inv_display (reset_inv_display sr) = (''--'', ''--'', ''--'', ''-'', ''-'', ''-'')"
    by (rule reset_inv_shows)
  show "\<not> ctrl_valid init_app" and "\<not> inv_valid init_app"
    by (simp_all add: init_app_def)
qed

lemma heard_items_both:
  "\<exists>i\<in>set heard_items. is_telemetry i" "\<exists>i\<in>set heard_items. is_inv i"
  by (simp_all add: heard_items_def rx_frame_def sample_cfg_def ctrl_frame_def inv_frame_def
      Let_def)

lemma s_100_display:
  "ctrl_display s_100 =
     (''24'', ''30'', ''22'', ''Main: ozhidanie'', ''Sub:  pered ozhidaniem'', ''0'', 1, 2)"
  "inv_display s_100 =
     (''5'', ''48'', ''40'', ''Main: vklyucheno'', ''Sub:  pauza'',
      ''Prevyshenie maks. toka, Prevyshenie maks. temperatury'')"
  by code_simp+

theorem liveness_state_machine_witness:
  "ctrl_valid s_100 \<and> inv_valid s_100 \<and> last_ctrl_rx s_100 = 100 \<and> last_inv_rx s_100 = 100 \<and>
   ctrl_valid s_109 \<and> inv_valid s_109 \<and>
   count_list (snd (poll (1099 / 10) [] s_100)) TimeoutCtrlLog = 0 \<and>
   count_list (snd (poll (1099 / 10) [] s_100)) TimeoutInvLog = 0 \<and>
   ctrl_display s_109 =
     (''24'', ''30'', ''22'', ''Main: ozhidanie'', ''Sub:  pered ozhidaniem'', ''0'', 1, 2) \<and>
   inv_display s_109 =
     (''5'', ''48'', ''40'', ''Main: vklyucheno'', ''Sub:  pauza'',
      ''Prevyshenie maks. toka, Prevyshenie maks. temperatury'') \<and>
   \<not> ctrl_valid s_110 \<and> \<not> inv_valid s_110 \<and>
   count_list (snd (poll (1101 / 10) [] s_109)) TimeoutCtrlLog = 1 \<and>
   count_list (snd (poll (1101 / 10) [] s_109)) TimeoutInvLog = 1 \<and>
   ctrl_display s_110 = (''--'', ''--'', ''--'', ''-'', ''-'', ''net'', 0, 0) \<and>
   inv_display s_110 = (''--'', ''--'', ''--'', ''-'', ''-'', ''-'') \<and>
   \<not> ctrl_valid (fst (run_polls [(115, []), (120, [])] s_110)) \<and>
   \<not> inv_valid (fst (run_polls [(115, []), (120, [])] s_110)) \<and>
   TimeoutCtrlLog \<notin> set (snd (run_polls [(115, []), (120, [])] s_110)) \<and>
   TimeoutInvLog \<notin> set (snd (run_polls [(115, []), (120, [])] s_110)) \<and>
   ctrl_display (fst (run_polls [(115, []), (120, [])] s_110)) =
     (''--'', ''--'', ''--'', ''-'', ''-'', ''net'', 0, 0) \<and>
   inv_display (fst (run_polls [(115, []), (120, [])] s_110)) =
     (''--'', ''--'', ''--'', ''-'', ''-'', ''-'')"
proof -
  note T = liveness_state_machine
  have a: "ctrl_valid s_100" "inv_valid s_100" "last_ctrl_rx s_100 = 100" "last_inv_rx s_100 = 100"
    using T [where heard = heard_items and t = 100 and sc = init_app and sa = init_app
        and ps = "[]" and sb = init_app and quiet = "[]" and now = 0 and sr = init_app]
      heard_items_both
    by (simp_all add: s_100_def)
  have b: "ctrl_valid s_109" "inv_valid s_109" "last_ctrl_rx s_109 = 100" "last_inv_rx s_109 = 100"
    "count_list (snd (poll (1099 / 10) [] s_100)) TimeoutCtrlLog = 0"
    "count_list (snd (poll (1099 / 10) [] s_100)) TimeoutInvLog = 0"
    "ctrl_display s_109 = ctrl_display s_100" "inv_display s_109 = inv_display s_100"
    using T [where sb = s_100 and quiet = "[]" and now = "1099 / 10" and sa = init_app
        and ps = "[]" and heard = "[]" and t = 0 and sc = init_app and sr = init_app] a
    by (simp_all add: s_109_def)
  have c: "\<not> ctrl_valid s_110" "\<not> inv_valid s_110"
    "count_list (snd (poll (1101 / 10) [] s_109)) TimeoutCtrlLog = 1"
    "count_list (snd (poll (1101 / 10) [] s_109)) TimeoutInvLog = 1"
    "ctrl_display s_110 = (''--'', ''--'', ''--'', ''-'', ''-'', ''net'', 0, 0)"
    "inv_display s_110 = (''--'', ''--'', ''--'', ''-'', ''-'', ''-'')"
    using T [where sb = s_109 and quiet = "[]" and now = "1101 / 10" and sa = init_app
        and ps = "[]" and heard = "[]" and t = 0 and sc = init_app and sr = s_109] b
    by (simp_all add: s_110_def)
  have d: "\<not> ctrl_valid (fst (run_polls [(115, []), (120, [])] s_110))"
    "\<not> inv_valid (fst (run_polls [(115, []), (120, [])] s_110))"
    "TimeoutCtrlLog \<notin> set (snd (run_polls [(115, []), (120, [])] s_110))"
    "TimeoutInvLog \<notin> set (snd (run_polls [(115, []), (120, [])] s_110))"
    "ctrl_display (fst (run_polls [(115, []), (120, [])] s_110)) = ctrl_display s_110"
    "inv_display (fst (run_polls [(115, []), (120, [])] s_110)) = inv_display s_110"
    using T [where sa = s_110 and ps = "[(115, []), (120, [])]" and sb = init_app
        and quiet = "[]" and now = 0 and heard = "[]" and t = 0 and sc = init_app
        and sr = init_app] c
    by (simp_all del: run_polls.simps)
  show ?thesis using a b c d s_100_display by simp
qed

section \<open>Properties of the commands\<close>

lemma poll_item_client: "client (fst (poll_item now it st)) = client st"
  by (cases it) (simp_all add: Let_def)

lemma drain_client: "client (fst (drain now items st)) = client st"
  by (induction items arbitrary: st) (simp_all add: split_beta poll_item_client)

lemma poll_client: "client (fst (poll now items st)) = client st"
  using check_inv_keeps_ctrl [of now "fst (check_ctrl_timeout now (fst (drain now items st)))"]
    check_ctrl_keeps_inv [of now "fst (drain now items st)"]
  by (simp add: poll_fst drain_client)

lemma run_polls_client: "client (fst (run_polls ps st)) = client st"
proof (induction ps arbitrary: st)
  case Nil
  show ?case by simp
next
  case (Cons p ps)
  obtain now items where p: "p = (now, items)" by (cases p)
  show ?case using Cons [of "fst (poll now items st)"]
    by (simp add: p run_polls_Cons_fst poll_client del: run_polls.simps)
qed

lemma send_can_client: "client a = client b \<Longrightarrow> send_can a key c = send_can b key c"
  by (simp add: send_can_def)

lemma poll_last_telemetry:
  assumes "\<forall>i\<in>set post. \<not> is_telemetry i"
  shows "var_set (fst (poll now (pre @ Telemetry t # post) st)) = py_str (tm_set t)"
    and "last_main_state (fst (poll now (pre @ Telemetry t # post) st)) =
           Some (drop_bit 4 (tm_state_raw t) AND 15)"
proof -
  let ?s1 = "fst (drain now (pre @ Telemetry t # post) st)"
  let ?s2 = "fst (check_ctrl_timeout now ?s1)"
  note d = drain_last_telemetry [OF assms, of now pre t st]
  note c = check_ctrl_effect [of now ?s1]
  note k = check_inv_keeps_ctrl [of now ?s2]
  show "var_set (fst (poll now (pre @ Telemetry t # post) st)) = py_str (tm_set t)"
    using d c k not_timeout_now [of now] by (simp add: poll_fst)
  show "last_main_state (fst (poll now (pre @ Telemetry t # post) st)) =
           Some (drop_bit 4 (tm_state_raw t) AND 15)"
    using d k check_ctrl_keeps_inv [of now ?s1] by (simp add: poll_fst)
qed

lemma run_polls_keeps_dashes:
  assumes "var_set st = ''--''" and "\<forall>p\<in>set ps. \<forall>i\<in>set (snd p). \<not> is_telemetry i"
  shows "var_set (fst (run_polls ps st)) = ''--''"
  using assms
proof (induction ps arbitrary: st)
  case Nil
  then show ?case by simp
next
  case (Cons p ps)
  obtain now items where p: "p = (now, items)" by (cases p)
  from Cons.prems have q: "\<forall>i\<in>set items. \<not> is_telemetry i"
    and r: "\<forall>p\<in>set ps. \<forall>i\<in>set (snd p). \<not> is_telemetry i" by (simp_all add: p)
  have "var_set (fst (poll now items st)) = ''--''"
    using poll_ctrl_silent(4) [OF q, of now st] Cons.prems(1) by simp
  then show ?case using Cons.IH [OF _ r]
    by (simp add: p run_polls_Cons_fst del: run_polls.simps)
qed

lemma run_polls_keeps_main:
  assumes "\<forall>p\<in>set ps. \<forall>i\<in>set (snd p). \<not> is_telemetry i"
  shows "last_main_state (fst (run_polls ps st)) = last_main_state st"
  using assms
proof (induction ps arbitrary: st)
  case Nil
  then show ?case by simp
next
  case (Cons p ps)
  obtain now items where p: "p = (now, items)" by (cases p)
  from Cons.prems have q: "\<forall>i\<in>set items. \<not> is_telemetry i"
    and r: "\<forall>p\<in>set ps. \<forall>i\<in>set (snd p). \<not> is_telemetry i" by (simp_all add: p)
  show ?case using Cons.IH [OF r, of "fst (poll now items st)"] poll_ctrl_silent(5) [OF q, of now st]
    by (simp add: p run_polls_Cons_fst del: run_polls.simps)
qed

lemma setpoint_dashes: "var_set st = ''--'' \<Longrightarrow> get_state_setpoint st = None"
  by (simp add: get_state_setpoint_def py_int_dashes)

lemma setpoint_shown: "var_set st = py_str n \<Longrightarrow> get_state_setpoint st = Some n"
  by (simp add: get_state_setpoint_def py_int_py_str)

lemma rx_ctrl_frame:
  "rx_frame sample_cfg ctrl_frame =
     [Text (DbgRx 0x5E0100 True 8)] @
      Telemetry \<lparr>tm_err = 0, tm_set = 22, tm_temp = 24, tm_cond = 30, tm_fan_raw = 0x12,
                 tm_state_raw = 0x23, tm_raw = [0, 22, 24, 30, 0, 0, 0x12, 0x23]\<rparr> #
      [Text (TelemLine 22 24 30 0x12 0x23 0)]"
  by (simp add: rx_frame_def sample_cfg_def ctrl_frame_def Let_def)

lemma rx_ctrl_frame_ff:
  "rx_frame sample_cfg ctrl_frame_ff =
     [Text (DbgRx 0x5E0100 True 8)] @
      Telemetry \<lparr>tm_err = 0, tm_set = 22, tm_temp = 24, tm_cond = 30, tm_fan_raw = 0x12,
                 tm_state_raw = 0xFF, tm_raw = [0, 22, 24, 30, 0, 0, 0x12, 0xFF]\<rparr> #
      [Text (TelemLine 22 24 30 0x12 0xFF 0)]"
  by (simp add: rx_frame_def sample_cfg_def ctrl_frame_ff_def Let_def)

lemma rx_other_frames:
  "\<forall>i\<in>set (rx_frame sample_cfg inv_frame). \<not> is_telemetry i"
  "\<forall>i\<in>set (rx_frame sample_cfg foreign_frame). \<not> is_telemetry i"
  by (simp_all add: rx_frame_def sample_cfg_def inv_frame_def foreign_frame_def Let_def)

lemma sample_send:
  "send_can connected_app ''START'' [''value'' \<mapsto> Num 22] =
     Inr (FrameSent 0x5E0001 True [1, 0, 0, 0, 0, 0, 0, 22])"
  "send_can connected_app ''STOP'' [''value'' \<mapsto> Num 22] =
     Inr (FrameSent 0x5E0001 True [2, 0, 0, 0, 0, 0, 0, 22])"
  by code_simp+

text \<open>
  C4, as the specification states it, fails: a snapshot has been received (right after the
  poll at 100 START is sent with its setpoint 22), yet after the silent poll at 110.1 has
  run the timeout reset, START and STOP are refused again.
\<close>

theorem start_after_timeout_counterexample:
  "on_start (fst (run_polls [(100, rx_frame sample_cfg ctrl_frame)] connected_app)) =
     Inr (FrameSent 0x5E0001 True [1, 0, 0, 0, 0, 0, 0, 22]) \<and>
   on_start (fst (run_polls [(100, rx_frame sample_cfg ctrl_frame), (1101 / 10, [])]
                   connected_app)) = Inr WarningShown \<and>
   on_stop (fst (run_polls [(100, rx_frame sample_cfg ctrl_frame), (1101 / 10, [])]
                  connected_app)) = Inr WarningShown"
  by code_simp

text \<open>
  C4, amended. START and STOP are refused, before any encoding or sending, whenever the
  display holds no controller setpoint: from the start while no controller snapshot
  arrives, and again from a timeout reset until the next snapshot; the handlers show the
  warning and return, with or without a client (a send attempt never has that outcome).
  After a poll that dequeued a controller snapshot the display holds its setpoint and both
  handlers go on to send with that setpoint as the context value \<open>value\<close>. A later poll
  without a snapshot keeps the setpoint and the commands accepted unless it runs the
  timeout reset, which puts the placeholder back and makes them refused. With an open
  client and a configured message the frame sent is the encoding of the context.
\<close>

theorem start_stop_need_displayed_setpoint:
  "(var_set s0 = ''--'' \<and> (\<forall>p\<in>set ps. \<forall>i\<in>set (snd p). \<not> is_telemetry i) \<longrightarrow>
      on_start (fst (run_polls ps s0)) = Inr WarningShown \<and>
      on_stop (fst (run_polls ps s0)) = Inr WarningShown) \<and>
   ((\<forall>i\<in>set post. \<not> is_telemetry i) \<longrightarrow>
      var_set (fst (poll now (pre @ Telemetry t # post) st)) = py_str (tm_set t) \<and>
      on_start (fst (poll now (pre @ Telemetry t # post) st)) =
        send_can st ''START'' [''value'' \<mapsto> Num (of_int (tm_set t))] \<and>
      on_stop (fst (poll now (pre @ Telemetry t # post) st)) =
        send_can st ''STOP'' [''value'' \<mapsto> Num (of_int (tm_set t))]) \<and>
   (var_set sq = py_str n \<and> (\<forall>i\<in>set quiet. \<not> is_telemetry i) \<longrightarrow>
      var_set (fst (poll tq quiet sq)) =
        (if ctrl_valid sq \<and> 10 < tq - last_ctrl_rx sq then ''--'' else py_str n) \<and>
      on_start (fst (poll tq quiet sq)) =
        (if ctrl_valid sq \<and> 10 < tq - last_ctrl_rx sq then Inr WarningShown
         else send_can sq ''START'' [''value'' \<mapsto> Num (of_int n)]) \<and>
      on_stop (fst (poll tq quiet sq)) =
        (if ctrl_valid sq \<and> 10 < tq - last_ctrl_rx sq then Inr WarningShown
         else send_can sq ''STOP'' [''value'' \<mapsto> Num (of_int n)])) \<and>
   send_can st key c \<noteq> Inr WarningShown \<and>
   (client st = Some cl \<and> bus_open cl \<and> messages (cfg cl) key = Some m \<and> msg_id m = Some a \<longrightarrow>
      send_can st key c =
        Inr (FrameSent a (case extended m of None \<Rightarrow> False | Some b \<Rightarrow> b) (build_data m c))) \<and>
   var_set init_app = ''--''"
proof (intro conjI impI)
  assume a: "var_set s0 = ''--'' \<and> (\<forall>p\<in>set ps. \<forall>i\<in>set (snd p). \<not> is_telemetry i)"
  then have "get_state_setpoint (fst (run_polls ps s0)) = None"
    using run_polls_keeps_dashes [of s0 ps] setpoint_dashes by blast
  then show "on_start (fst (run_polls ps s0)) = Inr WarningShown"
    and "on_stop (fst (run_polls ps s0)) = Inr WarningShown"
    by (simp_all add: on_start_def on_stop_def)
next
  assume p: "\<forall>i\<in>set post. \<not> is_telemetry i"
  let ?s = "fst (poll now (pre @ Telemetry t # post) st)"
  show v: "var_set ?s = py_str (tm_set t)"
    using poll_last_telemetry(1) [OF p, of now pre t st] .
  have g: "get_state_setpoint ?s = Some (tm_set t)"
    using v by (rule setpoint_shown)
  have c: "client ?s = client st" by (rule poll_client)
  show "on_start ?s = send_can st ''START'' [''value'' \<mapsto> Num (of_int (tm_set t))]"
    using g send_can_client [OF c] by (simp add: on_start_def)
  show "on_stop ?s = send_can st ''STOP'' [''value'' \<mapsto> Num (of_int (tm_set t))]"
    using g send_can_client [OF c] by (simp add: on_stop_def)
next
  assume a: "var_set sq = py_str n \<and> (\<forall>i\<in>set quiet. \<not> is_telemetry i)"
  then have q: "\<forall>i\<in>set quiet. \<not> is_telemetry i" by blast
  let ?s = "fst (poll tq quiet sq)"
  show v: "var_set ?s =
        (if ctrl_valid sq \<and> 10 < tq - last_ctrl_rx sq then ''--'' else py_str n)"
    using poll_ctrl_silent(4) [OF q, of tq sq] a by (simp add: TIMEOUT_S_def)
  have c: "client ?s = client sq" by (rule poll_client)
  have g: "get_state_setpoint ?s =
      (if ctrl_valid sq \<and> 10 < tq - last_ctrl_rx sq then None else Some n)"
    using v setpoint_dashes [of ?s] setpoint_shown [of ?s n] by (simp split: if_splits)
  show "on_start ?s =
        (if ctrl_valid sq \<and> 10 < tq - last_ctrl_rx sq then Inr WarningShown
         else send_can sq ''START'' [''value'' \<mapsto> Num (of_int n)])"
    using g send_can_client [OF c] by (simp add: on_start_def)
  show "on_stop ?s =
        (if ctrl_valid sq \<and> 10 < tq - last_ctrl_rx sq then Inr WarningShown
         else send_can sq ''STOP'' [''value'' \<mapsto> Num (of_int n)])"
    using g send_can_client [OF c] by (simp add: on_stop_def)
next
  show "send_can st key c \<noteq> Inr WarningShown"
    by (simp add: send_can_def send_from_key_def Let_def split: option.splits)
next
  assume "client st = Some cl \<and> bus_open cl \<and> messages (cfg cl) key = Some m \<and> msg_id m = Some a"
  then show "send_can st key c =
        Inr (FrameSent a (case extended m of None \<Rightarrow> False | Some b \<Rightarrow> b) (build_data m c))"
    by (simp add: send_can_def send_from_key_def Let_def)
next
  show "var_set init_app = ''--''" by (simp add: init_app_def)
qed

lemma c_100_facts:
  "ctrl_valid c_100" "last_ctrl_rx c_100 = 100" "client c_100 = client connected_app"
proof -
  have h: "\<exists>i\<in>set (rx_frame sample_cfg ctrl_frame). is_telemetry i"
    by (simp add: rx_ctrl_frame)
  show "ctrl_valid c_100" "last_ctrl_rx c_100 = 100"
    using poll_ctrl_heard(1,2) [OF h, of 100 connected_app] by (simp_all add: c_100_def)
  show "client c_100 = client connected_app" by (simp add: c_100_def poll_client)
qed

theorem start_stop_need_displayed_setpoint_witness:
  "on_start (fst (run_polls [(1, rx_frame sample_cfg inv_frame),
                             (2, rx_frame sample_cfg foreign_frame)] connected_app)) =
     Inr WarningShown \<and>
   on_stop (fst (run_polls [(1, rx_frame sample_cfg inv_frame),
                            (2, rx_frame sample_cfg foreign_frame)] connected_app)) =
     Inr WarningShown \<and>
   var_set c_100 = py_str 22 \<and>
   on_start c_100 = Inr (FrameSent 0x5E0001 True [1, 0, 0, 0, 0, 0, 0, 22]) \<and>
   on_stop c_100 = Inr (FrameSent 0x5E0001 True [2, 0, 0, 0, 0, 0, 0, 22]) \<and>
   on_start (fst (poll (1099 / 10) [] c_100)) =
     Inr (FrameSent 0x5E0001 True [1, 0, 0, 0, 0, 0, 0, 22]) \<and>
   on_stop (fst (poll (1099 / 10) [] c_100)) =
     Inr (FrameSent 0x5E0001 True [2, 0, 0, 0, 0, 0, 0, 22]) \<and>
   var_set (fst (poll (1101 / 10) [] c_100)) = ''--'' \<and>
   on_start (fst (poll (1101 / 10) [] c_100)) = Inr WarningShown \<and>
   on_stop (fst (poll (1101 / 10) [] c_100)) = Inr WarningShown \<and>
   on_start (fst (run_polls [(115, []), (120, [])] (fst (poll (1101 / 10) [] c_100)))) =
     Inr WarningShown"
proof -
  let ?t = "\<lparr>tm_err = 0, tm_set = 22, tm_temp = 24, tm_cond = 30, tm_fan_raw = 0x12,
        tm_state_raw = 0x23, tm_raw = [0, 22, 24, 30, 0, 0, 0x12, 0x23]\<rparr>"
  let ?m = "\<lparr>msg_id = None, extended = None, data = None, data_template = []\<rparr>"
  note T = start_stop_need_displayed_setpoint
  have v: "var_set connected_app = ''--''" by (simp add: connected_app_def init_app_def)
  have q: "\<forall>p\<in>set [(1::rat, rx_frame sample_cfg inv_frame), (2, rx_frame sample_cfg foreign_frame)].
             \<forall>i\<in>set (snd p). \<not> is_telemetry i"
    using rx_other_frames by simp
  have e: "\<forall>i\<in>set [Text (TelemLine 22 24 30 0x12 0x23 0)]. \<not> is_telemetry i" by simp
  note T1 = T [where ?s0.0 = connected_app
      and ps = "[(1, rx_frame sample_cfg inv_frame), (2, rx_frame sample_cfg foreign_frame)]"
      and post = "[Text (TelemLine 22 24 30 0x12 0x23 0)]" and now = 100
      and pre = "[Text (DbgRx 0x5E0100 True 8)]" and t = ?t and st = connected_app
      and sq = c_100 and n = 22 and quiet = "[]" and tq = "1099 / 10"
      and key = "''START''" and c = Map.empty and cl = sample_client and m = ?m and a = 0]
  from T1 v q have 1: "on_start (fst (run_polls [(1, rx_frame sample_cfg inv_frame),
                             (2, rx_frame sample_cfg foreign_frame)] connected_app)) =
     Inr WarningShown" "on_stop (fst (run_polls [(1, rx_frame sample_cfg inv_frame),
                            (2, rx_frame sample_cfg foreign_frame)] connected_app)) =
     Inr WarningShown" by blast+
  from T1 e have 2: "var_set c_100 = py_str 22"
    "on_start c_100 = Inr (FrameSent 0x5E0001 True [1, 0, 0, 0, 0, 0, 0, 22])"
    "on_stop c_100 = Inr (FrameSent 0x5E0001 True [2, 0, 0, 0, 0, 0, 0, 22])"
    by (simp_all add: c_100_def rx_ctrl_frame sample_send)
  have s: "send_can c_100 key c = send_can connected_app key c" for key c
    using c_100_facts(3) by (rule send_can_client)
  from T1 2(1) c_100_facts have 3:
    "on_start (fst (poll (1099 / 10) [] c_100)) =
       Inr (FrameSent 0x5E0001 True [1, 0, 0, 0, 0, 0, 0, 22])"
    "on_stop (fst (poll (1099 / 10) [] c_100)) =
       Inr (FrameSent 0x5E0001 True [2, 0, 0, 0, 0, 0, 0, 22])"
    by (simp_all add: s sample_send)
  note T2 = T [where ?s0.0 = "fst (poll (1101 / 10) [] c_100)" and ps = "[(115, []), (120, [])]"
      and post = "[]" and now = 0 and pre = "[]" and t = ?t and st = connected_app
      and sq = c_100 and n = 22 and quiet = "[]" and tq = "1101 / 10"
      and key = "''START''" and c = Map.empty and cl = sample_client and m = ?m and a = 0]
  from T2 2(1) c_100_facts have 4:
    "var_set (fst (poll (1101 / 10) [] c_100)) = ''--''"
    "on_start (fst (poll (1101 / 10) [] c_100)) = Inr WarningShown"
    "on_stop (fst (poll (1101 / 10) [] c_100)) = Inr WarningShown"
    by simp_all
  from T2 4(1) have 5:
    "on_start (fst (run_polls [(115, []), (120, [])] (fst (poll (1101 / 10) [] c_100)))) =
       Inr WarningShown"
    by (simp del: run_polls.simps)
  show ?thesis using 1 2 3 4 5 by simp
qed

text \<open>
  C5. The SET handler passes the mode 0x00 exactly when the last Main state is 2 and 0x20
  in every other case, the case of no Main state included; a one-byte \<open>mode\<close> field encodes
  it as that byte. The last Main state is absent initially, is left alone by polls without
  a controller snapshot, and after a poll with one is the high nibble of the state byte of
  the last snapshot.
\<close>

theorem set_mode_byte:
  "on_set st =
     send_can st ''SET''
       [''value'' \<mapsto> Num (of_int (var_set_input st)),
        ''mode'' \<mapsto> Num (of_int (if last_main_state st = Some 2 then 0x00 else 0x20))] \<and>
   field_item_bytes
       [''value'' \<mapsto> Num (of_int v),
        ''mode'' \<mapsto> Num (of_int (if main = Some 2 then 0x00 else 0x20))]
       ''mode'' \<lparr>field = Some ''mode'', val = None, scale = None, bytes = None, endian = None\<rparr> =
     [if main = Some 2 then 0x00 else 0x20] \<and>
   last_main_state init_app = None \<and>
   ((\<forall>p\<in>set ps. \<forall>i\<in>set (snd p). \<not> is_telemetry i) \<longrightarrow>
      last_main_state (fst (run_polls ps s0)) = last_main_state s0) \<and>
   ((\<forall>i\<in>set post. \<not> is_telemetry i) \<longrightarrow>
      last_main_state (fst (poll now (pre @ Telemetry t # post) s1)) =
        Some (drop_bit 4 (tm_state_raw t) AND 15))"
proof (intro conjI impI)
  show "on_set st =
     send_can st ''SET''
       [''value'' \<mapsto> Num (of_int (var_set_input st)),
        ''mode'' \<mapsto> Num (of_int (if last_main_state st = Some 2 then 0x00 else 0x20))]"
    by (simp add: on_set_def set_mode_def Let_def)
next
  show "field_item_bytes
       [''value'' \<mapsto> Num (of_int v),
        ''mode'' \<mapsto> Num (of_int (if main = Some 2 then 0x00 else 0x20))]
       ''mode'' \<lparr>field = Some ''mode'', val = None, scale = None, bytes = None, endian = None\<rparr> =
     [if main = Some 2 then 0x00 else 0x20]"
    by (cases "main = Some 2")
      (simp_all add: field_item_bytes_def field_num_def emit_field_def Let_def to_double_zero
        to_double_small py_round_small)
next
  show "last_main_state init_app = None" by (simp add: init_app_def)
next
  assume "\<forall>p\<in>set ps. \<forall>i\<in>set (snd p). \<not> is_telemetry i"
  then show "last_main_state (fst (run_polls ps s0)) = last_main_state s0"
    by (rule run_polls_keeps_main)
next
  assume "\<forall>i\<in>set post. \<not> is_telemetry i"
  then show "last_main_state (fst (poll now (pre @ Telemetry t # post) s1)) =
        Some (drop_bit 4 (tm_state_raw t) AND 15)"
    by (rule poll_last_telemetry(2))
qed

lemma sample_set:
  "send_can connected_app ''SET'' [''value'' \<mapsto> Num 25, ''mode'' \<mapsto> Num 0] =
     Inr (FrameSent 0x5E0001 True [3, 0, 0, 0, 0, 0, 0, 25])"
  "send_can connected_app ''SET'' [''value'' \<mapsto> Num 25, ''mode'' \<mapsto> Num 32] =
     Inr (FrameSent 0x5E0001 True [3, 0, 0x20, 0, 0, 0, 0, 25])"
  by code_simp+

lemma poll_var_set_input: "var_set_input (fst (poll now items st)) = var_set_input st"
proof -
  have 1: "var_set_input (fst (poll_item n it s)) = var_set_input s" for n it s
    by (cases it) (simp_all add: Let_def)
  have 2: "var_set_input (fst (drain n is s)) = var_set_input s" for n "is" s
    by (induction "is" arbitrary: s) (simp_all add: split_beta 1)
  show ?thesis
    by (simp add: poll_fst 2 check_inv_timeout_def check_ctrl_timeout_def
        reset_inv_display_def reset_ctrl_display_def)
qed

theorem set_mode_byte_witness:
  "on_set (fst (poll 3 (rx_frame sample_cfg ctrl_frame) connected_app)) =
     Inr (FrameSent 0x5E0001 True [3, 0, 0x00, 0, 0, 0, 0, 25]) \<and>
   on_set (fst (poll 3 (rx_frame sample_cfg ctrl_frame_ff) connected_app)) =
     Inr (FrameSent 0x5E0001 True [3, 0, 0x20, 0, 0, 0, 0, 25]) \<and>
   on_set (fst (run_polls [(1, rx_frame sample_cfg inv_frame)] connected_app)) =
     Inr (FrameSent 0x5E0001 True [3, 0, 0x20, 0, 0, 0, 0, 25])"
proof -
  have e: "\<forall>i\<in>set [Text (TelemLine 22 24 30 0x12 0x23 0)]. \<not> is_telemetry i"
    "\<forall>i\<in>set [Text (TelemLine 22 24 30 0x12 0xFF 0)]. \<not> is_telemetry i" by simp_all
  have q: "\<forall>p\<in>set [(1::rat, rx_frame sample_cfg inv_frame)]. \<forall>i\<in>set (snd p). \<not> is_telemetry i"
    using rx_other_frames by simp
  have i: "var_set_input connected_app = 25" "last_main_state connected_app = None"
    by (simp_all add: connected_app_def init_app_def)
  let ?t = "\<lparr>tm_err = 0, tm_set = 22, tm_temp = 24, tm_cond = 30, tm_fan_raw = 0x12,
          tm_state_raw = 0x23, tm_raw = [0, 22, 24, 30, 0, 0, 0x12, 0x23]\<rparr>"
  let ?a = "fst (poll 3 (rx_frame sample_cfg ctrl_frame) connected_app)"
  let ?b = "fst (poll 3 (rx_frame sample_cfg ctrl_frame_ff) connected_app)"
  let ?c = "fst (run_polls [(1, rx_frame sample_cfg inv_frame)] connected_app)"
  have ma: "last_main_state ?a = Some 2"
    using set_mode_byte [of ?a 0 None "[]" connected_app
        "[Text (TelemLine 22 24 30 0x12 0x23 0)]" 3 "[Text (DbgRx 0x5E0100 True 8)]"
        "\<lparr>tm_err = 0, tm_set = 22, tm_temp = 24, tm_cond = 30, tm_fan_raw = 0x12,
          tm_state_raw = 0x23, tm_raw = [0, 22, 24, 30, 0, 0, 0x12, 0x23]\<rparr>" connected_app] e
    by (simp add: rx_ctrl_frame)
  have mb: "last_main_state ?b = Some 15"
    using set_mode_byte [of ?b 0 None "[]" connected_app
        "[Text (TelemLine 22 24 30 0x12 0xFF 0)]" 3 "[Text (DbgRx 0x5E0100 True 8)]"
        "\<lparr>tm_err = 0, tm_set = 22, tm_temp = 24, tm_cond = 30, tm_fan_raw = 0x12,
          tm_state_raw = 0xFF, tm_raw = [0, 22, 24, 30, 0, 0, 0x12, 0xFF]\<rparr>" connected_app] e
    by (simp add: rx_ctrl_frame_ff)
  have mc: "last_main_state ?c = None"
    using set_mode_byte [of ?c 0 None "[(1, rx_frame sample_cfg inv_frame)]" connected_app
        "[]" 0 "[]" ?t connected_app] q i
    by (simp del: run_polls.simps)
  have ca: "client ?a = client connected_app" "client ?b = client connected_app"
    "client ?c = client connected_app"
    by (simp_all add: poll_client run_polls_client del: run_polls.simps)
  have va: "var_set_input ?a = 25" "var_set_input ?b = 25" "var_set_input ?c = 25"
    using i by (simp_all add: poll_var_set_input split_beta)
  have 1: "on_set ?a = Inr (FrameSent 0x5E0001 True [3, 0, 0x00, 0, 0, 0, 0, 25])"
    using set_mode_byte [of ?a 0 None "[]" connected_app "[]" 0 "[]" ?t connected_app]
      ma va send_can_client [OF ca(1)] by (simp add: sample_set)
  have 2: "on_set ?b = Inr (FrameSent 0x5E0001 True [3, 0, 0x20, 0, 0, 0, 0, 25])"
    using set_mode_byte [of ?b 0 None "[]" connected_app "[]" 0 "[]" ?t connected_app]
      mb va send_can_client [OF ca(2)] by (simp add: sample_set)
  have 3: "on_set ?c = Inr (FrameSent 0x5E0001 True [3, 0, 0x20, 0, 0, 0, 0, 25])"
    using set_mode_byte [of ?c 0 None "[]" connected_app "[]" 0 "[]" ?t connected_app]
      mc va send_can_client [OF ca(3)] by (simp add: sample_set del: run_polls.simps)
  show ?thesis using 1 2 3 by simp
qed


text \<open>
  The timeout reset puts the placeholder back into the displayed setpoint, so from then on
  START is refused again until the next controller snapshot.
\<close>

lemma start_refused_after_timeout:
  assumes "ctrl_valid st" and "TIMEOUT_S < now - last_ctrl_rx st"
    and "\<forall>i\<in>set items. \<not> is_telemetry i"
  shows "on_start (fst (poll now items st)) = Inr WarningShown"
proof -
  have "var_set (fst (poll now items st)) = ''--''"
    using poll_ctrl_silent(4) [OF assms(3), of now st] assms(1,2) by simp
  then show ?thesis by (simp add: on_start_def setpoint_dashes)
qed

section \<open>Properties of the state decoding\<close>

lemma table_domains:
  "dom MAIN_STATE = {0, 1, 2, 3, 4, 5}" "dom SUB_STATE = {0, 1, 2, 3, 4}"
  "dom INV_MAIN = {0, 1, 2, 3, 4}" "dom INV_SUB = {0, 1, 2, 3}"
  by (auto simp: MAIN_STATE_def SUB_STATE_def INV_MAIN_def INV_SUB_def dom_map_of_conv_image_fst)

lemma state_text_cases:
  "state_text tab v = (case tab v of Some label \<Rightarrow> label | None \<Rightarrow> ''neizv('' @ py_str v @ '')'')"
  by (simp add: state_text_def unknown_text_def split: option.splits)

lemma unknown_15:
  "state_text MAIN_STATE 15 = ''neizv(15)''" "state_text SUB_STATE 15 = ''neizv(15)''"
  by code_simp+

lemma ctrl_frame_decoded:
  "last_main_state (fst (poll 3 (rx_frame sample_cfg ctrl_frame) init_app)) = Some 2"
  "var_state_main (fst (poll 3 (rx_frame sample_cfg ctrl_frame) init_app)) = ''Main: ozhidanie''"
  "var_state_sub (fst (poll 3 (rx_frame sample_cfg ctrl_frame) init_app)) =
     ''Sub:  pered ozhidaniem''"
  "last_main_state (fst (poll 3 (rx_frame sample_cfg ctrl_frame_ff) init_app)) = Some 15"
  "var_state_main (fst (poll 3 (rx_frame sample_cfg ctrl_frame_ff) init_app)) = ''Main: neizv(15)''"
  "var_state_sub (fst (poll 3 (rx_frame sample_cfg ctrl_frame_ff) init_app)) = ''Sub:  neizv(15)''"
  by code_simp+

text \<open>
  C6. When a controller snapshot is processed, the Main state is \<open>(byte >> 4) & 0xF\<close> and
  the Sub state is \<open>byte & 0xF\<close> of the state byte; each is looked up in its table (Main 0
  to 5, Sub 0 to 4) and a value outside the table is shown as the fallback text with the
  value in it (the source's Russian abbreviation for "unknown", here \<open>neizv(n)\<close>), never
  as a failure. State byte 0x23 gives Main 2 and Sub 3; state byte 0xFF gives Main 15 and
  Sub 15, both shown as the fallback text with 15.
\<close>

theorem controller_state_decoding:
  "last_main_state (fst (poll_item now (Telemetry t) st)) =
     Some (drop_bit 4 (tm_state_raw t) AND 15) \<and>
   var_state_main (fst (poll_item now (Telemetry t) st)) =
     ''Main: '' @ state_text MAIN_STATE (drop_bit 4 (tm_state_raw t) AND 15) \<and>
   var_state_sub (fst (poll_item now (Telemetry t) st)) =
     ''Sub:  '' @ state_text SUB_STATE (tm_state_raw t AND 15) \<and>
   state_text tab v =
     (case tab v of Some label \<Rightarrow> label | None \<Rightarrow> ''neizv('' @ py_str v @ '')'') \<and>
   dom MAIN_STATE = {0, 1, 2, 3, 4, 5} \<and> dom SUB_STATE = {0, 1, 2, 3, 4} \<and>
   drop_bit 4 (0x23 :: int) AND 15 = 2 \<and> (0x23 :: int) AND 15 = 3 \<and>
   drop_bit 4 (0xFF :: int) AND 15 = 15 \<and> (0xFF :: int) AND 15 = 15 \<and>
   state_text MAIN_STATE 15 = ''neizv(15)'' \<and> state_text SUB_STATE 15 = ''neizv(15)'' \<and>
   last_main_state (fst (poll 3 (rx_frame sample_cfg ctrl_frame) init_app)) = Some 2 \<and>
   var_state_sub (fst (poll 3 (rx_frame sample_cfg ctrl_frame) init_app)) =
     ''Sub:  '' @ state_text SUB_STATE 3 \<and>
   last_main_state (fst (poll 3 (rx_frame sample_cfg ctrl_frame_ff) init_app)) = Some 15 \<and>
   var_state_main (fst (poll 3 (rx_frame sample_cfg ctrl_frame_ff) init_app)) =
     ''Main: neizv(15)'' \<and>
   var_state_sub (fst (poll 3 (rx_frame sample_cfg ctrl_frame_ff) init_app)) =
     ''Sub:  neizv(15)''"
proof -
  have 1: "last_main_state (fst (poll_item now (Telemetry t) st)) =
     Some (drop_bit 4 (tm_state_raw t) AND 15)"
    "var_state_main (fst (poll_item now (Telemetry t) st)) =
     ''Main: '' @ state_text MAIN_STATE (drop_bit 4 (tm_state_raw t) AND 15)"
    "var_state_sub (fst (poll_item now (Telemetry t) st)) =
     ''Sub:  '' @ state_text SUB_STATE (tm_state_raw t AND 15)"
    by (simp_all add: Let_def)
  have 2: "drop_bit 4 (0x23 :: int) AND 15 = 2" "(0x23 :: int) AND 15 = 3"
    "drop_bit 4 (0xFF :: int) AND 15 = 15" "(0xFF :: int) AND 15 = 15"
    by simp_all
  have 3: "''Sub:  pered ozhidaniem'' = ''Sub:  '' @ state_text SUB_STATE 3"
    by code_simp
  show ?thesis
    using 1 2 table_domains(1,2) unknown_15 ctrl_frame_decoded(1,4,5,6)
      ctrl_frame_decoded(3) [unfolded 3] state_text_cases [of tab v]
    by (intro conjI)
qed

text \<open>
  C7, as the specification states it, fails: the inverter states are not nibbles. With
  0x11 in bytes 6 and 7, either nibble is 1, a value both tables know, yet the application
  shows the fallback text with 17 for Sub and for Main.
\<close>

theorem inverter_nibble_counterexample:
  "var_inv_sub (fst (poll 3 (rx_frame sample_cfg inv_frame_11) init_app)) = ''Sub:  neizv(17)'' \<and>
   var_inv_main (fst (poll 3 (rx_frame sample_cfg inv_frame_11) init_app)) = ''Main: neizv(17)'' \<and>
   ''Sub:  '' @ state_text INV_SUB ((0x11 :: int) AND 15) = ''Sub:  vklyucheno'' \<and>
   ''Sub:  '' @ state_text INV_SUB (drop_bit 4 (0x11 :: int) AND 15) = ''Sub:  vklyucheno'' \<and>
   ''Main: '' @ state_text INV_MAIN ((0x11 :: int) AND 15) = ''Main: pauza'' \<and>
   ''Main: '' @ state_text INV_MAIN (drop_bit 4 (0x11 :: int) AND 15) = ''Main: pauza''"
  by code_simp

lemma poll_inv_frame:
  assumes "\<not> controller_match cf msg" and "inverter_match cf msg"
  shows "7 \<le> length (frame_data msg) \<Longrightarrow>
           var_inv_sub (fst (poll now (rx_frame cf msg) st)) =
             ''Sub:  '' @ state_text INV_SUB (uint (frame_data msg ! 6))"
    and "8 \<le> length (frame_data msg) \<Longrightarrow>
           var_inv_main (fst (poll now (rx_frame cf msg) st)) =
             ''Main: '' @ state_text INV_MAIN (uint (frame_data msg ! 7))"
  using assms
  by (auto simp: controller_match_def inverter_match_def signature_match_def rx_frame_def
      poll_def Let_def check_ctrl_timeout_def check_inv_timeout_def reset_ctrl_display_def
      reset_inv_display_def TIMEOUT_S_def)

text \<open>
  C7, amended. In inverter telemetry the Sub state is the whole value of byte 6 (present
  from length 7) with table values 0 to 3, and the Main state is the whole value of byte 7
  (present from length 8) with table values 0 to 4; no nibble is taken. Any other value is
  shown as the fallback text with the value in it rather than failing.
\<close>

theorem inverter_state_whole_byte:
  "(\<not> controller_match cf msg \<and> inverter_match cf msg \<and> 7 \<le> length (frame_data msg) \<longrightarrow>
      var_inv_sub (fst (poll now (rx_frame cf msg) st)) =
        ''Sub:  '' @ state_text INV_SUB (uint (frame_data msg ! 6))) \<and>
   (\<not> controller_match cf msg \<and> inverter_match cf msg \<and> 8 \<le> length (frame_data msg) \<longrightarrow>
      var_inv_main (fst (poll now (rx_frame cf msg) st)) =
        ''Main: '' @ state_text INV_MAIN (uint (frame_data msg ! 7))) \<and>
   state_text tab v =
     (case tab v of Some label \<Rightarrow> label | None \<Rightarrow> ''neizv('' @ py_str v @ '')'') \<and>
   dom INV_SUB = {0, 1, 2, 3} \<and> dom INV_MAIN = {0, 1, 2, 3, 4}"
  using poll_inv_frame [of cf msg now st] table_domains(3,4) state_text_cases [of tab v]
  by blast

lemma inv_frame_matches:
  "\<not> controller_match sample_cfg inv_frame" "inverter_match sample_cfg inv_frame"
  "8 \<le> length (frame_data inv_frame)" "7 \<le> length (frame_data inv_frame)"
  "uint (frame_data inv_frame ! 6) = 2" "uint (frame_data inv_frame ! 7) = 3"
  by (simp_all add: controller_match_def inverter_match_def signature_match_def sample_cfg_def
      inv_frame_def)

lemma inv_labels:
  "''Sub:  '' @ state_text INV_SUB 2 = ''Sub:  pauza''"
  "''Main: '' @ state_text INV_MAIN 3 = ''Main: vklyucheno''"
  by code_simp+

theorem inverter_state_whole_byte_witness:
  "inverter_match sample_cfg inv_frame \<and>
   var_inv_sub (fst (poll 3 (rx_frame sample_cfg inv_frame) init_app)) = ''Sub:  pauza'' \<and>
   var_inv_main (fst (poll 3 (rx_frame sample_cfg inv_frame) init_app)) = ''Main: vklyucheno''"
  using inverter_state_whole_byte [of sample_cfg inv_frame 3 init_app INV_SUB 0]
    inv_frame_matches inv_labels
  by simp

end
